theory Spec2Isabelle
  imports Complex_Main "HOL-Library.Word" "HOL-Library.Signed_Division"
begin

section \<open>The RF24 example programs\<close>

text \<open>
  Three programs are embedded: the Linux example \<^verbatim>\<open>acknowledgementPayloads.cpp\<close>
  (definitions with the suffix \<open>_ack\<close> where a name is shared), the Linux example
  GettingStarted (suffix \<open>_gs\<close>) and the start-up of the Arduino sketch
  ManualAcknowledgements (\<open>arduino_setup\<close>).  The RF24 driver, the clock, standard input
  and the command line are the environment: every answer the environment gives is
  an input of the model, every call and every output of the program is an
  \<open>event\<close> of the trace the model returns.
\<close>

subsection \<open>Data\<close>

text \<open>\<^verbatim>\<open>struct PayloadStruct { char message[7]; uint8_t counter; }\<close>\<close>

record PayloadStruct =
  message :: "char list"
  counter :: "8 word"

text \<open>\<^verbatim>\<open>struct timespec\<close>: \<open>tv_sec\<close> (\<^verbatim>\<open>time_t\<close>) and \<open>tv_nsec\<close> (\<^verbatim>\<open>long\<close>) are
  signed; their differences are taken without overflow, as integers.\<close>

record timespec =
  tv_sec :: int
  tv_nsec :: int

datatype pa_level = RF24_PA_LOW | RF24_PA_MAX

text \<open>The calls made on the global \<^verbatim>\<open>RF24 radio\<close> object.\<close>

datatype 'p radio_call =
    Begin
  | EnableDynamicPayloads
  | EnableAckPayload
  | SetPALevel pa_level
  | OpenWritingPipe string
  | OpenReadingPipe nat string
  | StopListening
  | StartListening
  | Write 'p
  | Available
  | Read
  | GetDynamicPayloadSize
  | WriteAckPayload nat 'p
  | PowerDown

text \<open>What a program does, in order: output on \<^verbatim>\<open>cout\<close> (or \<^verbatim>\<open>Serial\<close>), reading a
  line, calls on the radio, sleeping, installing the signal handler, and ending
  the process with an exit code (\<^verbatim>\<open>exit(c)\<close>, or \<^verbatim>\<open>return c\<close> from \<^verbatim>\<open>main\<close>).\<close>

datatype 'p event =
    Cout string
  | CoutNum int
  | CoutChar char
  | CoutUint8 "8 word"
  | CoutPayload 'p
  | Endl
  | Getline
  | Radio "'p radio_call"
  | Delay nat
  | Sigaction_SIGINT
  | SerialBegin nat
  | SerialPrintln string
  | Exit int

text \<open>A procedure returns the events it produced and, when it returned, its
  result; \<open>None\<close> says it has not returned: the environment's recorded answers ran
  out while a loop was still running, or the loop never ends.\<close>

type_synonym ('p, 'a) run = "'p event list \<times> 'a option"

definition emit :: "'p event list \<Rightarrow> ('p, 'a) run \<Rightarrow> ('p, 'a) run" where
  "emit es r = (es @ fst r, snd r)"

definition and_then :: "('p, 'a) run \<Rightarrow> ('a \<Rightarrow> ('p, 'b) run) \<Rightarrow> ('p, 'b) run" where
  "and_then r f = (case snd r of None \<Rightarrow> (fst r, None) | Some x \<Rightarrow> emit (fst r) (f x))"

definition NL :: char where
  "NL = CHR 0x0A"

definition TAB :: char where
  "TAB = CHR 0x09"

definition NUL :: char where
  "NUL = CHR 0x00"

text \<open>Printing a \<^verbatim>\<open>char[]\<close> prints the bytes before the first NUL.  A
  \<open>message\<close> without a NUL is printed to its last byte here; the program would
  read on past the array.\<close>

definition c_str :: "char list \<Rightarrow> string" where
  "c_str bs = takeWhile (\<lambda>c. c \<noteq> NUL) bs"

text \<open>\<^verbatim>\<open>memcpy(payload.message, src, 6)\<close>: the first six bytes are replaced.\<close>

definition memcpy6 :: "char list \<Rightarrow> string \<Rightarrow> char list" where
  "memcpy6 dst src = take 6 src @ drop 6 dst"

subsection \<open>getMicros\<close>

text \<open>The conversions of \<^verbatim>\<open>return ((seconds) * 1000 + useconds) + 0.5;\<close>: the sum is
  converted to \<^verbatim>\<open>double\<close>, a half is added, and the result is converted back to
  \<^verbatim>\<open>uint32_t\<close> by truncation.  A value below \<open>2 ^ 32\<close> plus a half is exact in a
  double, so the reals stand for the doubles here.\<close>

definition uint32_to_double :: "32 word \<Rightarrow> real" where
  "uint32_to_double w = real (unat w)"

definition double_to_uint32 :: "real \<Rightarrow> 32 word" where
  "double_to_uint32 r = word_of_int (if 0 \<le> r then \<lfloor>r\<rfloor> else \<lceil>r\<rceil>)"

text \<open>\<open>startTimer\<close> is the global written by \<^verbatim>\<open>clock_gettime\<close> before the
  transmission, \<open>endTimer\<close> the reading \<^verbatim>\<open>getMicros\<close> takes itself.  The two
  differences are computed in the signed types of the fields (the division
  truncates towards zero) and then converted to \<^verbatim>\<open>uint32_t\<close>.\<close>

definition getMicros :: "timespec \<Rightarrow> timespec \<Rightarrow> 32 word" where
  "getMicros startTimer endTimer =
     (let seconds = (word_of_int (tv_sec endTimer - tv_sec startTimer) :: 32 word);
          useconds = (word_of_int ((tv_nsec endTimer - tv_nsec startTimer) sdiv 1000) :: 32 word)
      in double_to_uint32 (uint32_to_double (seconds * 1000 + useconds) + 0.5))"

subsection \<open>The environment's answers\<close>

text \<open>One iteration of a transmitter loop asks the environment for the clock
  (\<open>startT\<close>), for the result of \<^verbatim>\<open>radio.write\<close> (\<open>report\<close>) and for the clock again
  (\<open>endT\<close>, read by \<^verbatim>\<open>getMicros\<close>).  The ACK-payloads transmitter also asks, after a
  delivered payload, whether an ACK payload is available (\<open>ack\<close>): the pipe, the
  dynamic payload size and the payload read.\<close>

record tx_step =
  startT :: timespec
  report :: bool
  endT :: timespec

record ack_tx_step = tx_step +
  ack :: "(8 word \<times> 8 word \<times> PayloadStruct) option"

text \<open>One iteration of a receiver loop reads \<^verbatim>\<open>time(nullptr)\<close> for the loop
  condition (\<open>now\<close>) and, when the loop goes on, asks whether a payload is
  available (\<open>arrival\<close>): the pipe, the dynamic payload size, the payload read
  and the reading of \<^verbatim>\<open>time(nullptr)\<close> that resets the timer.\<close>

record 'p rx_poll =
  now :: int
  arrival :: "(8 word \<times> 8 word \<times> 'p \<times> int) option"

text \<open>The global \<open>payload\<close> and the answers not yet used.  \<open>rx_entry\<close> holds the
  readings of \<^verbatim>\<open>time(nullptr)\<close> taken on entry to \<^verbatim>\<open>slave()\<close>, one for each call.\<close>

record ('p, 'tx) world =
  payload :: 'p
  tx_steps :: "'tx list"
  rx_entry :: "int list"
  rx_polls :: "'p rx_poll list"

subsection \<open>acknowledgementPayloads.cpp: master and slave\<close>

text \<open>The \<^verbatim>\<open>while (failures < 6)\<close> loop of \<^verbatim>\<open>master()\<close>.  \<open>failures\<close> is an
  \<^verbatim>\<open>unsigned int\<close>.  The loop returns the counter, the payload and the unused
  answers when its condition fails.\<close>

fun master_loop_ack ::
  "32 word \<Rightarrow> PayloadStruct \<Rightarrow> ack_tx_step list
    \<Rightarrow> (PayloadStruct, 32 word \<times> PayloadStruct \<times> ack_tx_step list) run" where
  "master_loop_ack failures p [] =
     (if failures < 6 then ([], None) else ([], Some (failures, p, [])))"
| "master_loop_ack failures p (s # rest) =
     (if failures < 6 then
        (let timerEllapsed = getMicros (startT s) (endT s) in
         if report s then
           emit [Radio (Write p),
                 Cout ''Transmission successful! Time to transmit = '',
                 CoutNum (uint timerEllapsed),
                 Cout '' us. Sent: '',
                 Cout (c_str (message p)),
                 CoutNum (uint (counter p)),
                 Radio Available]
             (case ack s of
                Some (pipe, len, received) \<Rightarrow>
                  emit [Radio Read,
                        Cout '' Received '',
                        Radio GetDynamicPayloadSize,
                        CoutUint8 len,
                        Cout '' bytes on pipe '',
                        CoutNum (uint pipe),
                        Cout '': '',
                        Cout (c_str (message received)),
                        CoutNum (uint (counter received)),
                        Endl,
                        Delay 1000]
                    (master_loop_ack failures (p\<lparr>counter := counter received + 1\<rparr>) rest)
              | None \<Rightarrow>
                  emit [Cout '' Received an empty ACK packet.'', Endl, Delay 1000]
                    (master_loop_ack failures p rest))
         else
           emit [Radio (Write p), Cout ''Transmission failed or timed out'', Endl, Delay 1000]
             (master_loop_ack (failures + 1) p rest))
      else ([], Some (failures, p, s # rest)))"

definition master_ack ::
  "(PayloadStruct, ack_tx_step) world \<Rightarrow> (PayloadStruct, (PayloadStruct, ack_tx_step) world) run" where
  "master_ack w =
     (let p = (payload w)\<lparr>message := memcpy6 (message (payload w)) ''Hello ''\<rparr> in
      emit [Radio StopListening]
        (and_then (master_loop_ack 0 p (tx_steps w))
           (\<lambda>(failures, p', rest).
              ([CoutNum (uint failures), Cout '' failures detected. Leaving TX role.'', Endl],
               Some (w\<lparr>payload := p', tx_steps := rest\<rparr>)))))"

text \<open>The \<^verbatim>\<open>while (time(nullptr) - startTimer < 6)\<close> loop of \<^verbatim>\<open>slave()\<close>.\<close>

fun slave_loop_ack ::
  "int \<Rightarrow> PayloadStruct \<Rightarrow> PayloadStruct rx_poll list
    \<Rightarrow> (PayloadStruct, PayloadStruct \<times> PayloadStruct rx_poll list) run" where
  "slave_loop_ack startTimer p [] = ([], None)"
| "slave_loop_ack startTimer p (q # rest) =
     (if now q - startTimer < 6 then
        emit [Radio Available]
          (case arrival q of
             Some (pipe, bytes, received, t) \<Rightarrow>
               (let p' = p\<lparr>counter := counter received + 1\<rparr> in
                emit [Radio GetDynamicPayloadSize,
                      Radio Read,
                      Cout ''Received '',
                      CoutNum (uint bytes),
                      Cout '' bytes on pipe '',
                      CoutNum (uint pipe),
                      Cout '': '',
                      Cout (c_str (message received)),
                      CoutNum (uint (counter received)),
                      Cout '' Sent: '',
                      Cout (c_str (message p)),
                      CoutNum (uint (counter p)),
                      Endl,
                      Radio (WriteAckPayload 1 p')]
                  (slave_loop_ack t p' rest))
           | None \<Rightarrow> slave_loop_ack startTimer p rest)
      else ([], Some (p, rest)))"

definition slave_ack ::
  "(PayloadStruct, ack_tx_step) world \<Rightarrow> (PayloadStruct, (PayloadStruct, ack_tx_step) world) run" where
  "slave_ack w =
     (let p = (payload w)\<lparr>message := memcpy6 (message (payload w)) ''World ''\<rparr> in
      emit [Radio (WriteAckPayload 1 p), Radio StartListening]
        (case rx_entry w of
           [] \<Rightarrow> ([], None)
         | startTimer # entries \<Rightarrow>
             and_then (slave_loop_ack startTimer p (rx_polls w))
               (\<lambda>(p', rest).
                  ([Cout ''Nothing received in 6 seconds. Leaving RX role.'', Endl,
                    Radio StopListening],
                   Some (w\<lparr>payload := p', rx_entry := entries, rx_polls := rest\<rparr>)))))"

subsection \<open>GettingStarted: master and slave\<close>

text \<open>The payload is a \<^verbatim>\<open>float\<close>: its type \<open>'f\<close> and the step \<^verbatim>\<open>payload += 0.01\<close>
  (\<open>add_hundredth\<close>) are parameters.\<close>

fun master_loop_gs ::
  "('f \<Rightarrow> 'f) \<Rightarrow> 32 word \<Rightarrow> 'f \<Rightarrow> tx_step list \<Rightarrow> ('f, 32 word \<times> 'f \<times> tx_step list) run" where
  "master_loop_gs add_hundredth failure p [] =
     (if failure < 6 then ([], None) else ([], Some (failure, p, [])))"
| "master_loop_gs add_hundredth failure p (s # rest) =
     (if failure < 6 then
        (let timerEllapsed = getMicros (startT s) (endT s) in
         if report s then
           emit [Radio (Write p),
                 Cout ''Transmission successful! Time to transmit = '',
                 CoutNum (uint timerEllapsed),
                 Cout '' us. Sent: '',
                 CoutPayload p,
                 Endl,
                 Delay 1000]
             (master_loop_gs add_hundredth failure (add_hundredth p) rest)
         else
           emit [Radio (Write p), Cout ''Transmission failed or timed out'', Endl, Delay 1000]
             (master_loop_gs add_hundredth (failure + 1) p rest))
      else ([], Some (failure, p, s # rest)))"

definition master_gs ::
  "('f \<Rightarrow> 'f) \<Rightarrow> ('f, tx_step) world \<Rightarrow> ('f, ('f, tx_step) world) run" where
  "master_gs add_hundredth w =
     emit [Radio StopListening]
       (and_then (master_loop_gs add_hundredth 0 (payload w) (tx_steps w))
          (\<lambda>(failure, p', rest).
             ([CoutNum (uint failure), Cout '' failures detected, going back to setRole()'', Endl],
              Some (w\<lparr>payload := p', tx_steps := rest\<rparr>))))"

fun slave_loop_gs :: "int \<Rightarrow> 'f \<Rightarrow> 'f rx_poll list \<Rightarrow> ('f, 'f \<times> 'f rx_poll list) run" where
  "slave_loop_gs startTimer p [] = ([], None)"
| "slave_loop_gs startTimer p (q # rest) =
     (if now q - startTimer < 6 then
        emit [Radio Available]
          (case arrival q of
             Some (pipe, bytes, received, t) \<Rightarrow>
               emit [Radio GetDynamicPayloadSize,
                     Radio Read,
                     Cout ''Received '',
                     CoutNum (uint bytes),
                     Cout '' bytes on pipe '',
                     CoutNum (uint pipe),
                     Cout '': '',
                     CoutPayload received,
                     Endl]
                 (slave_loop_gs t received rest)
           | None \<Rightarrow> slave_loop_gs startTimer p rest)
      else ([], Some (p, rest)))"

definition slave_gs :: "('f, tx_step) world \<Rightarrow> ('f, ('f, tx_step) world) run" where
  "slave_gs w =
     emit [Radio StartListening]
       (case rx_entry w of
          [] \<Rightarrow> ([], None)
        | startTimer # entries \<Rightarrow>
            and_then (slave_loop_gs startTimer (payload w) (rx_polls w))
              (\<lambda>(p', rest).
                 ([Cout ''Timeout reached. Nothing received in 6 seconds'', Endl,
                   Radio StopListening],
                  Some (w\<lparr>payload := p', rx_entry := entries, rx_polls := rest\<rparr>))))"

subsection \<open>setRole\<close>

text \<open>\<^verbatim>\<open>setRole()\<close> has the same text in both Linux examples; \<open>master\<close> and
  \<open>slave\<close> are the example's own.  \<open>lines\<close> are the lines left on standard input.
  At the end of input \<^verbatim>\<open>getline\<close> leaves \<open>input\<close> empty every time, so the loop
  prints the menu for ever and never returns.\<close>

definition menu :: "'p event list" where
  "menu =
     [Cout (''*** PRESS 'T' to begin transmitting to the other node'' @ [NL]),
      Cout (''*** PRESS 'R' to begin receiving from the other node'' @ [NL]),
      Cout ''*** PRESS 'Q' to exit'',
      Endl,
      Getline]"

fun setRole ::
  "('w \<Rightarrow> ('p, 'w) run) \<Rightarrow> ('w \<Rightarrow> ('p, 'w) run) \<Rightarrow> string list \<Rightarrow> 'w \<Rightarrow> ('p, 'w) run" where
  "setRole master slave [] w = (menu, None)"
| "setRole master slave (input # lines) w =
     emit menu
       (if length input \<ge> 1 then
          (if input ! 0 = CHR ''T'' \<or> input ! 0 = CHR ''t'' then
             and_then (master w) (\<lambda>w'. setRole master slave lines w')
           else if input ! 0 = CHR ''R'' \<or> input ! 0 = CHR ''r'' then
             and_then (slave w) (\<lambda>w'. setRole master slave lines w')
           else if input ! 0 = CHR ''Q'' \<or> input ! 0 = CHR ''q'' then
             ([], Some w)
           else
             emit [CoutChar (input ! 0), Cout '' is an invalid input. Please try again.'', Endl]
               (setRole master slave lines w))
        else setRole master slave lines w)"

subsection \<open>acknowledgementPayloads.cpp: main\<close>

definition printHelp :: "string \<Rightarrow> 'p event list" where
  "printHelp progName =
     [Cout ''usage: '',
      Cout progName,
      Cout ('' [-h] [-n {0,1}] [-r {0,1}]'' @ [NL, NL]),
      Cout (''A simple example of sending data from 1 nRF24L01 transceiver to another'' @ [NL]),
      Cout (''with Acknowledgement (ACK) payloads attached to ACK packets.'' @ [NL]),
      Cout ([NL] @ ''This example was written to be used on 2 devices acting as 'nodes'.'' @ [NL]),
      Cout (''optional arguments:'' @ [NL] @ ''  -h, --help'' @ [TAB, TAB]
            @ ''show this help message and exit'' @ [NL]),
      Cout (''  -n {0,1}, --node {0,1}'' @ [NL, TAB, TAB, TAB]
            @ ''the identifying radio number'' @ [NL]),
      Cout (''  -r {0,1}, --role {0,1}'' @ [NL, TAB, TAB, TAB, CHR 0x27]
            @ ''1' specifies the TX role.''),
      Cout '' '0' specifies the RX role.'',
      Endl]"

definition programInterruptHandler :: "int \<Rightarrow> 'p event list" where
  "programInterruptHandler s =
     [Cout '' Interrupt signal '',
      CoutNum s,
      Cout '' detected. Exiting...'',
      Endl,
      Radio PowerDown,
      Exit 0]"

text \<open>The locals of \<^verbatim>\<open>main\<close> that the command line sets.\<close>

record cli =
  radioNumber :: bool
  foundArgNode :: bool
  foundArgRole :: bool
  role :: bool

text \<open>\<^verbatim>\<open>argv[a + 1][0]\<close>: the first byte of the value, the terminating NUL when the
  value is empty.\<close>

definition first_char :: "string \<Rightarrow> char" where
  "first_char v = (case v of [] \<Rightarrow> NUL | c # _ \<Rightarrow> c)"

text \<open>In \<^verbatim>\<open>argv[a + 1][0] - 48\<close> the \<^verbatim>\<open>char\<close> is promoted to \<^verbatim>\<open>int\<close>.  Whether \<^verbatim>\<open>char\<close>
  is signed is the platform's choice (\<open>sg\<close>).\<close>

definition char_to_int :: "bool \<Rightarrow> char \<Rightarrow> int" where
  "char_to_int sg c = (if sg then sint (of_char c :: 8 word) else uint (of_char c :: 8 word))"

text \<open>The \<^verbatim>\<open>while (a < argc)\<close> loop over the arguments after the program name,
  two at a time; \<open>None\<close> is the \<^verbatim>\<open>invalidOption\<close> exit.  The loop is entered only
  with an even number of arguments.\<close>

fun parse_args :: "bool \<Rightarrow> cli \<Rightarrow> string list \<Rightarrow> cli option" where
  "parse_args sg f [] = Some f"
| "parse_args sg f (opt # val # rest) =
     (if opt = ''-n'' \<or> opt = ''--node'' then
        (if char_to_int sg (first_char val) - 48 \<le> 1 then
           parse_args sg
             (f\<lparr>foundArgNode := True,
                radioNumber := (char_to_int sg (first_char val) - 48 = 1)\<rparr>) rest
         else None)
      else if opt = ''-r'' \<or> opt = ''--role'' then
        (if char_to_int sg (first_char val) - 48 \<le> 1 then
           parse_args sg
             (f\<lparr>foundArgRole := True,
                role := (char_to_int sg (first_char val) - 48 = 1)\<rparr>) rest
         else None)
      else parse_args sg f rest)"

text \<open>What the environment answers to a whole run: the platform's \<^verbatim>\<open>char\<close>, the
  result of \<^verbatim>\<open>radio.begin()\<close>, the lines on standard input, and the answers to
  the transmitter and receiver loops.\<close>

record ('p, 'tx) env =
  char_signed :: bool
  begin_ok :: bool
  stdin :: "string list"
  tx_answers :: "'tx list"
  entry_times :: "int list"
  rx_answers :: "'p rx_poll list"

definition initial_world :: "'p \<Rightarrow> ('p, 'tx) env \<Rightarrow> ('p, 'tx) world" where
  "initial_world p e =
     \<lparr>payload = p, tx_steps = tx_answers e, rx_entry = entry_times e, rx_polls = rx_answers e\<rparr>"

text \<open>The global \<^verbatim>\<open>PayloadStruct payload\<close> is zero-initialised.\<close>

definition payload0 :: PayloadStruct where
  "payload0 = \<lparr>message = replicate 7 NUL, counter = 0\<rparr>"

text \<open>\<^verbatim>\<open>uint8_t address[2][6] = {"1Node", "2Node"}\<close>, indexed by a \<^verbatim>\<open>bool\<close>.\<close>

definition address :: "bool \<Rightarrow> string" where
  "address i = (if i then ''2Node'' else ''1Node'')"

text \<open>\<^verbatim>\<open>radioNumber = input.length() > 0 && (uint8_t)input[0] == 49\<close>\<close>

definition ask_radioNumber :: "string \<Rightarrow> bool" where
  "ask_radioNumber input = (length input > 0 \<and> (of_char (input ! 0) :: 8 word) = 49)"

text \<open>\<^verbatim>\<open>getline(cin, input)\<close>: the next line and the lines left; the empty string at
  the end of input.\<close>

definition getline :: "string list \<Rightarrow> string \<times> string list" where
  "getline lines = (case lines of [] \<Rightarrow> ([], []) | l # ls \<Rightarrow> (l, ls))"

text \<open>Returning from \<^verbatim>\<open>main\<close> with \<^verbatim>\<open>return 0\<close> once the role has returned.\<close>

definition return0 :: "('p, 'a) run \<Rightarrow> 'p event list" where
  "return0 r = fst r @ (case snd r of None \<Rightarrow> [] | Some _ \<Rightarrow> [Exit 0])"

text \<open>The end of \<^verbatim>\<open>main\<close>: \<^verbatim>\<open>setRole()\<close> when no role was given on the command
  line, \<^verbatim>\<open>role ? master() : slave()\<close> otherwise.\<close>

definition enter_role ::
  "cli \<Rightarrow> string list \<Rightarrow> (PayloadStruct, ack_tx_step) world
    \<Rightarrow> (PayloadStruct, (PayloadStruct, ack_tx_step) world) run" where
  "enter_role f lines w =
     (if \<not> foundArgRole f then setRole master_ack slave_ack lines w
      else if role f then master_ack w
      else slave_ack w)"

text \<open>\<^verbatim>\<open>main\<close> from \<^verbatim>\<open>cout << argv[0] << endl\<close> on, with the locals as the command
  line left them.\<close>

definition run_ack ::
  "(PayloadStruct, ack_tx_step) env \<Rightarrow> string \<Rightarrow> cli \<Rightarrow> PayloadStruct event list" where
  "run_ack e progName f =
     (let (input, lines) = (if \<not> foundArgNode f then getline (stdin e) else ([], stdin e));
          number = (if \<not> foundArgNode f then ask_radioNumber input else radioNumber f)
      in [Cout progName, Endl]
         @ (if \<not> foundArgNode f
            then [Cout ''Which radio is this? Enter '0' or '1'. Defaults to '0' '', Getline]
            else [])
         @ [Radio EnableDynamicPayloads,
            Radio EnableAckPayload,
            Radio (SetPALevel RF24_PA_LOW),
            Radio (OpenWritingPipe (address number)),
            Radio (OpenReadingPipe 1 (address (\<not> number))),
            Sigaction_SIGINT]
         @ return0 (enter_role f lines (initial_world payload0 e)))"

text \<open>\<^verbatim>\<open>int main(int argc, char** argv)\<close>; \<open>argv\<close> holds the program's name and the
  arguments.  A run with an empty \<open>argv\<close> (\<^verbatim>\<open>argv[0]\<close> is a null pointer) is left
  unspecified.\<close>

fun main_ack :: "(PayloadStruct, ack_tx_step) env \<Rightarrow> string list \<Rightarrow> PayloadStruct event list" where
  "main_ack e (progName # args) =
     (let argc = int (length (progName # args));
          locals = \<lparr>radioNumber = True, foundArgNode = False, foundArgRole = False, role = False\<rparr>
      in if \<not> begin_ok e then
           [Radio Begin, Cout ''radio hardware is not responding!!'', Endl, Exit 0]
         else
           Radio Begin #
           (if argc > 1 then
              (if (argc - 1) mod 2 \<noteq> 0 then printHelp progName @ [Exit 0]
               else
                 (case parse_args (char_signed e) locals args of
                    None \<Rightarrow> printHelp progName @ [Exit 0]
                  | Some f \<Rightarrow>
                      if \<not> foundArgNode f \<and> \<not> foundArgRole f
                      then printHelp progName @ [Exit 0]
                      else run_ack e progName f))
            else run_ack e progName locals))"

subsection \<open>GettingStarted: main\<close>

text \<open>\<^verbatim>\<open>int main()\<close> declares no parameters: the command line is not read.
  \<open>p0\<close> is the initial \<^verbatim>\<open>float payload = 0.0\<close>.\<close>

definition main_gs :: "('f \<Rightarrow> 'f) \<Rightarrow> 'f \<Rightarrow> ('f, tx_step) env \<Rightarrow> string list \<Rightarrow> 'f event list" where
  "main_gs add_hundredth p0 e argv =
     (if \<not> begin_ok e then
        [Radio Begin, Cout ''nRF24L01 is not responding!!'', Endl, Exit 0]
      else
        [Radio Begin,
         Cout (''RF24/examples_linux/GettingStarted'' @ [NL]),
         Radio (SetPALevel RF24_PA_LOW),
         Radio (OpenWritingPipe ''1Node''),
         Radio (OpenReadingPipe 0 ''1Node'')]
        @ return0 (setRole (master_gs add_hundredth) slave_gs (stdin e) (initial_world p0 e)))"

subsection \<open>ManualAcknowledgements: setup\<close>

text \<open>\<^verbatim>\<open>while (!Serial) { }\<close>: \<open>ready i\<close> is the value of \<^verbatim>\<open>Serial\<close> at the \<open>i\<close>-th
  test.  The loop has no bound.\<close>

partial_function (option) wait_serial :: "(nat \<Rightarrow> bool) \<Rightarrow> nat \<Rightarrow> nat option" where
  "wait_serial ready i = (if ready i then Some i else wait_serial ready (i + 1))"

text \<open>\<^verbatim>\<open>while (1) {} // hold in infinite loop\<close>\<close>

partial_function (option) hold :: "unit \<Rightarrow> unit option" where
  "hold u = hold u"

text \<open>\<^verbatim>\<open>setup()\<close> after the hardware check.  \<open>sketch_role\<close> is the global \<^verbatim>\<open>role\<close>.\<close>

definition setup_radio :: "bool \<Rightarrow> PayloadStruct \<Rightarrow> (PayloadStruct, PayloadStruct) run" where
  "setup_radio sketch_role p =
     emit [SerialPrintln ''RF24/examples/ManualAcknowledgements'',
           SerialPrintln ''*** PRESS 'T' to begin transmitting to the other node'',
           Radio (SetPALevel RF24_PA_LOW)]
       (if sketch_role then
          ([Radio StopListening, Radio (OpenWritingPipe ''1Node'')],
           Some (p\<lparr>message := memcpy6 (message p) ''Hello ''\<rparr>))
        else
          ([Radio (OpenReadingPipe 1 ''1Node''), Radio StartListening],
           Some (p\<lparr>message := memcpy6 (message p) ''World ''\<rparr>)))"

definition arduino_setup ::
  "(nat \<Rightarrow> bool) \<Rightarrow> bool \<Rightarrow> bool \<Rightarrow> PayloadStruct \<Rightarrow> (PayloadStruct, PayloadStruct) run" where
  "arduino_setup serial_ready radio_begin sketch_role p0 =
     (let p = p0\<lparr>message := (message p0)[6 := NUL]\<rparr> in
      emit [SerialBegin 115200]
        (case wait_serial serial_ready 0 of
           None \<Rightarrow> ([], None)
         | Some _ \<Rightarrow>
             emit [Radio Begin]
               (if \<not> radio_begin then
                  emit [SerialPrintln ''nRF24L01 is not responding!!'']
                    (case hold () of
                       None \<Rightarrow> ([], None)
                     | Some _ \<Rightarrow> setup_radio sketch_role p)
                else setup_radio sketch_role p)))"

section \<open>Notions used to state the properties\<close>

text \<open>The formula \<open>(end.tv_sec - start.tv_sec) * 1000 + (end.tv_nsec - start.tv_nsec) / 1000\<close>
  with both subtractions and the division in unsigned 32-bit arithmetic.\<close>

definition getMicros_unsigned :: "timespec \<Rightarrow> timespec \<Rightarrow> 32 word" where
  "getMicros_unsigned startTimer endTimer =
     ((word_of_int (tv_sec endTimer) - word_of_int (tv_sec startTimer)) * 1000
       + (word_of_int (tv_nsec endTimer) - word_of_int (tv_nsec startTimer)) div 1000)"

text \<open>The time that really passed between two normalised readings, in whole
  microseconds.\<close>

definition elapsed_micros :: "timespec \<Rightarrow> timespec \<Rightarrow> int" where
  "elapsed_micros startTimer endTimer =
     ((tv_sec endTimer - tv_sec startTimer) * 1000000000
       + (tv_nsec endTimer - tv_nsec startTimer)) div 1000"

definition normalised :: "timespec \<Rightarrow> bool" where
  "normalised t = (0 \<le> tv_nsec t \<and> tv_nsec t < 1000000000)"

definition not_before :: "timespec \<Rightarrow> timespec \<Rightarrow> bool" where
  "not_before startTimer endTimer =
     (tv_sec startTimer < tv_sec endTimer
      \<or> (tv_sec startTimer = tv_sec endTimer \<and> tv_nsec startTimer \<le> tv_nsec endTimer))"

text \<open>The number of failed \<^verbatim>\<open>radio.write\<close> calls among the answers, and the number
  of failed calls in a row at their end.\<close>

definition failed_writes :: "'a tx_step_scheme list \<Rightarrow> nat" where
  "failed_writes steps = length (filter (\<lambda>s. \<not> report s) steps)"

definition failures_in_a_row :: "'a tx_step_scheme list \<Rightarrow> nat" where
  "failures_in_a_row steps = length (takeWhile (\<lambda>s. \<not> report s) (rev steps))"

text \<open>The timer of a receiver loop after the polls \<open>qs\<close>: the reading taken at the
  last payload received, or the reading taken on entry.  The timer has
  \<open>expired\<close> at poll \<open>k\<close> when the reading of that poll is 6 seconds or more
  after it.\<close>

definition reset_time :: "'p rx_poll \<Rightarrow> int option" where
  "reset_time q = map_option (\<lambda>(pipe, bytes, received, t). t) (arrival q)"

definition last_reset :: "int \<Rightarrow> 'p rx_poll list \<Rightarrow> int" where
  "last_reset entry qs = last (entry # List.map_filter reset_time qs)"

definition expired :: "int \<Rightarrow> 'p rx_poll list \<Rightarrow> nat \<Rightarrow> bool" where
  "expired entry qs k = (6 \<le> now (qs ! k) - last_reset entry (take k qs))"

text \<open>Kinds of events.  An event of a role is neither the end of the process nor
  a read of standard input.\<close>

definition is_radio :: "'p event \<Rightarrow> bool" where
  "is_radio ev = (case ev of Radio _ \<Rightarrow> True | _ \<Rightarrow> False)"

definition is_exit :: "'p event \<Rightarrow> bool" where
  "is_exit ev = (case ev of Exit _ \<Rightarrow> True | _ \<Rightarrow> False)"

definition role_event :: "'p event \<Rightarrow> bool" where
  "role_event ev = (case ev of Exit _ \<Rightarrow> False | Getline \<Rightarrow> False | _ \<Rightarrow> True)"

text \<open>What a run does after it has installed the signal handler.\<close>

definition after_sigaction :: "'p event list \<Rightarrow> 'p event list" where
  "after_sigaction tr = tl (dropWhile (\<lambda>ev. ev \<noteq> Sigaction_SIGINT) tr)"

text \<open>The command line of the ACK-payloads example, read as \<^verbatim>\<open>main\<close> reads it:
  options stand at the odd positions of \<open>argv\<close>, each followed by its value.
  A value is rejected when the code of its first character, less 48, is above 1.
  The command line is rejected when it is not empty and has an odd number of
  arguments, or a node or role option with a rejected value, or neither a node
  nor a role option.  It is well formed when the number of arguments is even, a
  node or role option is given, and the value of every node or role option starts
  with \<open>0\<close> or \<open>1\<close>.\<close>

fun pairs :: "string list \<Rightarrow> (string \<times> string) list" where
  "pairs (opt # val # rest) = (opt, val) # pairs rest"
| "pairs _ = []"

definition node_option :: "string \<Rightarrow> bool" where
  "node_option opt = (opt = ''-n'' \<or> opt = ''--node'')"

definition role_option :: "string \<Rightarrow> bool" where
  "role_option opt = (opt = ''-r'' \<or> opt = ''--role'')"

definition rejected_value :: "bool \<Rightarrow> string \<Rightarrow> bool" where
  "rejected_value sg v = (1 < char_to_int sg (first_char v) - 48)"

definition node_given :: "string list \<Rightarrow> bool" where
  "node_given args = (\<exists>(opt, val)\<in>set (pairs args). node_option opt)"

definition role_given :: "string list \<Rightarrow> bool" where
  "role_given args = (\<exists>(opt, val)\<in>set (pairs args). role_option opt)"

definition bad_value :: "bool \<Rightarrow> string list \<Rightarrow> bool" where
  "bad_value sg args =
     (\<exists>(opt, val)\<in>set (pairs args). (node_option opt \<or> role_option opt) \<and> rejected_value sg val)"

definition rejected_cli :: "bool \<Rightarrow> string list \<Rightarrow> bool" where
  "rejected_cli sg args =
     (args \<noteq> [] \<and> (odd (length args) \<or> bad_value sg args
        \<or> (\<not> node_given args \<and> \<not> role_given args)))"

definition well_formed_cli :: "string list \<Rightarrow> bool" where
  "well_formed_cli args =
     (even (length args) \<and> (node_given args \<or> role_given args)
      \<and> (\<forall>(opt, val)\<in>set (pairs args).
            node_option opt \<or> role_option opt \<longrightarrow> first_char val \<in> {CHR ''0'', CHR ''1''}))"

text \<open>The values given to an option, in the order of the command line, and what a
  value selects: 1 when the code of its first character, less 48, is 1, and 0
  otherwise.  The last value given to an option is the one that counts.\<close>

definition option_values :: "(string \<Rightarrow> bool) \<Rightarrow> string list \<Rightarrow> string list" where
  "option_values is_opt args = map snd (filter (\<lambda>(opt, val). is_opt opt) (pairs args))"

definition selects_one :: "bool \<Rightarrow> string \<Rightarrow> bool" where
  "selects_one sg v = (char_to_int sg (first_char v) - 48 = 1)"

text \<open>Sample environments: \<^verbatim>\<open>Serial\<close> is ready from the \<open>k\<close>-th test on; a run on a
  platform with signed \<^verbatim>\<open>char\<close>, with the result of \<^verbatim>\<open>radio.begin()\<close> and the lines
  of standard input given and no answers for the loops.\<close>

definition serial_ready_at :: "nat \<Rightarrow> nat \<Rightarrow> bool" where
  "serial_ready_at k i = (k \<le> i)"

definition sample_env :: "bool \<Rightarrow> string list \<Rightarrow> ('p, 'tx) env" where
  "sample_env ok lines =
     \<lparr>char_signed = True, begin_ok = ok, stdin = lines, tx_answers = [], entry_times = [],
      rx_answers = []\<rparr>"

text \<open>Sample answers to the loops, and worlds made of them.\<close>

definition sample_step :: "bool \<Rightarrow> tx_step" where
  "sample_step r =
     \<lparr>startT = \<lparr>tv_sec = 5, tv_nsec = 1000\<rparr>, report = r, endT = \<lparr>tv_sec = 5, tv_nsec = 4000\<rparr>\<rparr>"

definition sample_ack_step :: "bool \<Rightarrow> ack_tx_step" where
  "sample_ack_step r =
     \<lparr>startT = \<lparr>tv_sec = 5, tv_nsec = 1000\<rparr>, report = r, endT = \<lparr>tv_sec = 5, tv_nsec = 4000\<rparr>,
      ack = None\<rparr>"

definition sample_poll :: "int \<Rightarrow> 'p rx_poll" where
  "sample_poll t = \<lparr>now = t, arrival = None\<rparr>"

definition sample_arrival :: "int \<Rightarrow> 'p \<Rightarrow> int \<Rightarrow> 'p rx_poll" where
  "sample_arrival t p t' = \<lparr>now = t, arrival = Some (1, 8, p, t')\<rparr>"

definition sample_world_ack :: "bool list \<Rightarrow> (PayloadStruct, ack_tx_step) world" where
  "sample_world_ack reports =
     \<lparr>payload = payload0, tx_steps = map sample_ack_step reports, rx_entry = [], rx_polls = []\<rparr>"

definition sample_world_gs :: "bool list \<Rightarrow> (int, tx_step) world" where
  "sample_world_gs reports =
     \<lparr>payload = 0, tx_steps = map sample_step reports, rx_entry = [], rx_polls = []\<rparr>"

definition sample_rx_world :: "'p \<Rightarrow> 'p rx_poll list \<Rightarrow> ('p, 'tx) world" where
  "sample_rx_world p polls = \<lparr>payload = p, tx_steps = [], rx_entry = [100], rx_polls = polls\<rparr>"

section \<open>Properties\<close>

subsection \<open>Traces and results\<close>

lemma snd_emit [simp]: "snd (emit es r) = snd r"
  by (simp add: emit_def)

lemma fst_emit [simp]: "fst (emit es r) = es @ fst r"
  by (simp add: emit_def)

lemma snd_and_then:
  "snd (and_then r f) = (case snd r of None \<Rightarrow> None | Some x \<Rightarrow> snd (f x))"
  by (simp add: and_then_def split: option.splits)

lemma fst_and_then:
  "fst (and_then r f) = fst r @ (case snd r of None \<Rightarrow> [] | Some x \<Rightarrow> fst (f x))"
  by (simp add: and_then_def split: option.splits)

subsection \<open>getMicros\<close>

lemma floor_half: "\<lfloor>real n + 1 / 2\<rfloor> = int n"
  by (rule floor_unique) simp_all

lemma double_round_trip: "double_to_uint32 (uint32_to_double w + 0.5) = w"
proof -
  define n where "n = unat w"
  have pos: "0 \<le> real n + 0.5" by simp
  have "double_to_uint32 (real n + 0.5) = word_of_int (int n)"
    unfolding double_to_uint32_def using pos floor_half [of n] by simp
  also have "\<dots> = w" by (simp add: n_def)
  finally show ?thesis
    by (simp only: uint32_to_double_def n_def)
qed

lemma getMicros_word:
  "getMicros s e
     = word_of_int ((tv_sec e - tv_sec s) * 1000 + (tv_nsec e - tv_nsec s) sdiv 1000)"
  unfolding getMicros_def Let_def double_round_trip by simp

lemma uint_getMicros:
  "uint (getMicros s e)
     = ((tv_sec e - tv_sec s) * 1000 + (tv_nsec e - tv_nsec s) sdiv 1000) mod 2 ^ 32"
  unfolding getMicros_word by (simp only: uint_word_of_int) simp

lemma sdiv1000_nonneg: "0 \<le> (n::int) \<Longrightarrow> n sdiv 1000 = n div 1000"
  by (simp add: signed_divide_int_def sgn_if)

lemma sdiv1000_neg: "(n::int) < 0 \<Longrightarrow> n sdiv 1000 = - ((- n) div 1000)"
  by (simp add: signed_divide_int_def sgn_if)

lemma same_second:
  assumes "normalised s" "normalised e" "not_before s e" "tv_sec e = tv_sec s"
  shows "uint (getMicros s e) = elapsed_micros s e"
proof -
  define n where "n = tv_nsec e - tv_nsec s"
  have n: "0 \<le> n" "n < 1000000000"
    using assms by (auto simp: n_def normalised_def not_before_def)
  have q: "n sdiv 1000 = n div 1000" using n by (simp add: sdiv1000_nonneg)
  have "0 \<le> n div 1000" "n div 1000 < 4294967296" using n by simp_all
  then have "(n div 1000) mod 4294967296 = n div 1000" by simp
  then show ?thesis
    unfolding uint_getMicros elapsed_micros_def using assms(4) q by (simp add: n_def)
qed

lemma later_second:
  assumes "normalised s" "normalised e" "tv_sec s < tv_sec e"
  shows "uint (getMicros s e) \<noteq> elapsed_micros s e"
proof -
  define n where "n = tv_nsec e - tv_nsec s"
  define d where "d = tv_sec e - tv_sec s"
  define q where "q = n sdiv 1000"
  define f where "f = n div 1000"
  have n: "- 1000000000 < n" "n < 1000000000"
    using assms by (auto simp: n_def normalised_def)
  have d: "1 \<le> d" using assms by (simp add: d_def)
  have el: "elapsed_micros s e = d * 1000000 + f"
  proof -
    have "(d * 1000000000 + n) div 1000 = d * 1000000 + n div 1000" by simp
    then show ?thesis by (simp add: elapsed_micros_def d_def n_def f_def)
  qed
  have fb: "f < 1000000" "- 1000000 \<le> f"
    using n unfolding f_def by simp_all
  have qb: "f \<le> q" "q \<le> f + 1" "q < 0 \<longrightarrow> f < 0"
    using n unfolding q_def f_def
    by (cases "0 \<le> n"; simp add: sdiv1000_nonneg sdiv1000_neg; arith)+
  have r: "uint (getMicros s e) = (d * 1000 + q) mod 4294967296"
    unfolding uint_getMicros by (simp add: d_def q_def n_def)
  show ?thesis
  proof (cases "0 \<le> d * 1000 + q")
    case True
    then have "(d * 1000 + q) mod 4294967296 \<le> d * 1000 + q"
      by (rule zmod_le_nonneg_dividend)
    also have "\<dots> < d * 1000000 + f" using d qb by linarith
    finally show ?thesis using r el by simp
  next
    case False
    then have neg: "d * 1000 + q < 0" by simp
    have "(d * 1000 + q + 4294967296) mod 4294967296 = d * 1000 + q + 4294967296"
      by (rule mod_pos_pos_trivial) (use neg d qb fb in linarith)+
    then have m: "(d * 1000 + q) mod 4294967296 = d * 1000 + q + 4294967296"
      by simp
    have "q < 0" using neg d by linarith
    then have "f < 0" using qb by simp
    have "d < 1000" using neg qb fb by linarith
    then have "d * 1000000 + f < 1000000000" using \<open>f < 0\<close> by linarith
    moreover have "1000000000 < d * 1000 + q + 4294967296" using d qb fb by linarith
    ultimately show ?thesis using r el m by linarith
  qed
qed

text \<open>
  Claim C9, as amended.  For every pair of readings \<^verbatim>\<open>getMicros\<close> returns
  \<open>(end.tv_sec - start.tv_sec) * 1000 + (end.tv_nsec - start.tv_nsec) / 1000\<close>
  reduced modulo \<open>2 ^ 32\<close>, where the two subtractions and the division are those
  of the signed fields (the division truncates towards zero) and only the
  conversion of each result, the multiplication and the addition are unsigned
  32-bit.  For normalised readings, the later not before the earlier, this is the
  number of microseconds that passed exactly when both readings fall in the same
  second (\<open>tv_sec\<close> is the same).
\<close>

theorem getMicros_value:
  "uint (getMicros s e)
     = ((tv_sec e - tv_sec s) * 1000 + (tv_nsec e - tv_nsec s) sdiv 1000) mod 2 ^ 32
   \<and> (normalised s \<and> normalised e \<and> not_before s e \<longrightarrow>
        (uint (getMicros s e) = elapsed_micros s e) = (tv_sec e = tv_sec s))"
proof (intro conjI impI)
  show "uint (getMicros s e)
     = ((tv_sec e - tv_sec s) * 1000 + (tv_nsec e - tv_nsec s) sdiv 1000) mod 2 ^ 32"
    by (rule uint_getMicros)
next
  assume a: "normalised s \<and> normalised e \<and> not_before s e"
  show "(uint (getMicros s e) = elapsed_micros s e) = (tv_sec e = tv_sec s)"
  proof (cases "tv_sec e = tv_sec s")
    case True
    with a same_second [of s e] show ?thesis by simp
  next
    case False
    with a have "tv_sec s < tv_sec e" by (auto simp: not_before_def)
    with a later_second [of s e] False show ?thesis by simp
  qed
qed

theorem getMicros_value_witness:
  "normalised \<lparr>tv_sec = 5, tv_nsec = 999000000\<rparr>
   \<and> normalised \<lparr>tv_sec = 6, tv_nsec = 1000000\<rparr>
   \<and> not_before \<lparr>tv_sec = 5, tv_nsec = 999000000\<rparr> \<lparr>tv_sec = 6, tv_nsec = 1000000\<rparr>
   \<and> elapsed_micros \<lparr>tv_sec = 5, tv_nsec = 999000000\<rparr> \<lparr>tv_sec = 6, tv_nsec = 1000000\<rparr> = 2000
   \<and> uint (getMicros \<lparr>tv_sec = 5, tv_nsec = 999000000\<rparr> \<lparr>tv_sec = 6, tv_nsec = 1000000\<rparr>)
       = 4293970296"
  using getMicros_value [of "\<lparr>tv_sec = 5, tv_nsec = 999000000\<rparr>" "\<lparr>tv_sec = 6, tv_nsec = 1000000\<rparr>"]
  by (simp add: normalised_def not_before_def elapsed_micros_def signed_divide_int_def)

text \<open>
  Claim C9 as stated fails: with the subtractions and the division in unsigned
  32-bit arithmetic the formula gives 3297967 for a start at 5 s 999000000 ns and
  an end at 6 s 1000000 ns, and \<^verbatim>\<open>getMicros\<close> returns 4293970296.
\<close>

theorem getMicros_unsigned_counterexample:
  "getMicros_unsigned \<lparr>tv_sec = 5, tv_nsec = 999000000\<rparr> \<lparr>tv_sec = 6, tv_nsec = 1000000\<rparr> = 3297967
   \<and> getMicros \<lparr>tv_sec = 5, tv_nsec = 999000000\<rparr> \<lparr>tv_sec = 6, tv_nsec = 1000000\<rparr> = 4293970296
   \<and> getMicros \<lparr>tv_sec = 5, tv_nsec = 999000000\<rparr> \<lparr>tv_sec = 6, tv_nsec = 1000000\<rparr>
       \<noteq> getMicros_unsigned \<lparr>tv_sec = 5, tv_nsec = 999000000\<rparr> \<lparr>tv_sec = 6, tv_nsec = 1000000\<rparr>"
  by (simp add: getMicros_unsigned_def getMicros_word signed_divide_int_def)

subsection \<open>The transmitter loops\<close>

lemma failed_writes_simps [simp]:
  "failed_writes [] = 0"
  "failed_writes (s # steps) = (if report s then 0 else 1) + failed_writes steps"
  by (simp_all add: failed_writes_def)

lemma failures_less: "((f :: 32 word) < 6) = (unat f < 6)"
  by (simp add: word_less_nat_alt)

lemma failures_succ: "(f :: 32 word) < 6 \<Longrightarrow> unat (f + 1) = Suc (unat f)"
  by (simp add: failures_less unat_word_ariths)

lemma failures_six: "unat (f :: 32 word) = 6 \<Longrightarrow> f = 6"
  by (simp add: word_unat_eq_iff)

lemma master_loop_ack_returns:
  "unat f \<le> 6 \<Longrightarrow>
   (snd (master_loop_ack f p steps) \<noteq> None) = (6 \<le> unat f + failed_writes steps)"
proof (induction steps arbitrary: f p)
  case Nil
  then show ?case by (simp add: failures_less)
next
  case (Cons s steps)
  show ?case
  proof (cases "f < 6")
    case True
    then have le: "unat (f + 1) \<le> 6" and su: "unat (f + 1) = Suc (unat f)"
      by (simp_all add: failures_succ failures_less)
    show ?thesis
      using True Cons.prems Cons.IH [of f] Cons.IH [OF le] su
      by (simp add: Let_def split: option.splits prod.splits)
  next
    case False
    then show ?thesis using Cons.prems by (simp add: failures_less)
  qed
qed

lemma master_loop_ack_result:
  "unat f \<le> 6 \<Longrightarrow> snd (master_loop_ack f p steps) = Some (f', p', rest) \<Longrightarrow>
   f' = 6 \<and> (\<exists>used. steps = used @ rest \<and> unat f + failed_writes used = 6
                \<and> (if f < 6 then used \<noteq> [] \<and> \<not> report (last used) else used = []))"
proof (induction steps arbitrary: f p)
  case Nil
  then show ?case by (auto simp: failures_less intro: failures_six split: if_splits)
next
  case (Cons s steps)
  show ?case
  proof (cases "f < 6")
    case False
    with Cons.prems show ?thesis
      by (auto simp: failures_less intro: failures_six)
  next
    case True
    note lt = this
    show ?thesis
    proof (cases "report s")
      case True
      obtain q where r: "snd (master_loop_ack f q steps) = Some (f', p', rest)"
        using Cons.prems(2) lt True by (auto simp: Let_def split: option.splits)
      from Cons.IH [OF Cons.prems(1) r] lt obtain used where
        u: "f' = 6" "steps = used @ rest" "unat f + failed_writes used = 6"
           "used \<noteq> []" "\<not> report (last used)" by auto
      show ?thesis
        using u True lt by (intro conjI exI [of _ "s # used"]) auto
    next
      case False
      have le: "unat (f + 1) \<le> 6" and su: "unat (f + 1) = Suc (unat f)"
        using lt by (simp_all add: failures_succ failures_less)
      have r: "snd (master_loop_ack (f + 1) p steps) = Some (f', p', rest)"
        using Cons.prems(2) lt False by (auto simp: Let_def)
      from Cons.IH [OF le r] obtain used where
        u: "f' = 6" "steps = used @ rest" "unat (f + 1) + failed_writes used = 6"
           "if f + 1 < 6 then used \<noteq> [] \<and> \<not> report (last used) else used = []" by auto
      show ?thesis
        using u su False lt
        by (intro conjI exI [of _ "s # used"]) (auto split: if_splits)
    qed
  qed
qed

lemma master_loop_gs_returns:
  "unat f \<le> 6 \<Longrightarrow>
   (snd (master_loop_gs add f p steps) \<noteq> None) = (6 \<le> unat f + failed_writes steps)"
proof (induction steps arbitrary: f p)
  case Nil
  then show ?case by (simp add: failures_less)
next
  case (Cons s steps)
  show ?case
  proof (cases "f < 6")
    case True
    then have le: "unat (f + 1) \<le> 6" and su: "unat (f + 1) = Suc (unat f)"
      by (simp_all add: failures_succ failures_less)
    show ?thesis
      using True Cons.prems Cons.IH [of f] Cons.IH [OF le] su
      by (simp add: Let_def)
  next
    case False
    then show ?thesis using Cons.prems by (simp add: failures_less)
  qed
qed

lemma master_loop_gs_result:
  "unat f \<le> 6 \<Longrightarrow> snd (master_loop_gs add f p steps) = Some (f', p', rest) \<Longrightarrow>
   f' = 6 \<and> (\<exists>used. steps = used @ rest \<and> unat f + failed_writes used = 6
                \<and> (if f < 6 then used \<noteq> [] \<and> \<not> report (last used) else used = []))"
proof (induction steps arbitrary: f p)
  case Nil
  then show ?case by (auto simp: failures_less intro: failures_six split: if_splits)
next
  case (Cons s steps)
  show ?case
  proof (cases "f < 6")
    case False
    with Cons.prems show ?thesis
      by (auto simp: failures_less intro: failures_six)
  next
    case True
    note lt = this
    show ?thesis
    proof (cases "report s")
      case True
      have r: "snd (master_loop_gs add f (add p) steps) = Some (f', p', rest)"
        using Cons.prems(2) lt True by (auto simp: Let_def)
      from Cons.IH [OF Cons.prems(1) r] lt obtain used where
        u: "f' = 6" "steps = used @ rest" "unat f + failed_writes used = 6"
           "used \<noteq> []" "\<not> report (last used)" by auto
      show ?thesis
        using u True lt by (intro conjI exI [of _ "s # used"]) auto
    next
      case False
      have le: "unat (f + 1) \<le> 6" and su: "unat (f + 1) = Suc (unat f)"
        using lt by (simp_all add: failures_succ failures_less)
      have r: "snd (master_loop_gs add (f + 1) p steps) = Some (f', p', rest)"
        using Cons.prems(2) lt False by (auto simp: Let_def)
      from Cons.IH [OF le r] obtain used where
        u: "f' = 6" "steps = used @ rest" "unat (f + 1) + failed_writes used = 6"
           "if f + 1 < 6 then used \<noteq> [] \<and> \<not> report (last used) else used = []" by auto
      show ?thesis
        using u su False lt
        by (intro conjI exI [of _ "s # used"]) (auto split: if_splits)
    qed
  qed
qed

lemma snd_master_ack:
  "snd (master_ack w)
     = (case snd (master_loop_ack 0
                    ((payload w)\<lparr>message := memcpy6 (message (payload w)) ''Hello ''\<rparr>)
                    (tx_steps w)) of
          None \<Rightarrow> None
        | Some (f, p', rest) \<Rightarrow> Some (w\<lparr>payload := p', tx_steps := rest\<rparr>))"
  by (simp add: master_ack_def Let_def snd_and_then split: option.splits prod.splits)

lemma snd_master_gs:
  "snd (master_gs add w)
     = (case snd (master_loop_gs add 0 (payload w) (tx_steps w)) of
          None \<Rightarrow> None
        | Some (f, p', rest) \<Rightarrow> Some (w\<lparr>payload := p', tx_steps := rest\<rparr>))"
  by (simp add: master_gs_def snd_and_then split: option.splits prod.splits)

lemma master_ack_returns:
  "(snd (master_ack w) \<noteq> None) = (6 \<le> failed_writes (tx_steps w))"
proof -
  have "(snd (master_ack w) \<noteq> None)
          = (snd (master_loop_ack 0
                    ((payload w)\<lparr>message := memcpy6 (message (payload w)) ''Hello ''\<rparr>)
                    (tx_steps w)) \<noteq> None)"
    by (auto simp: snd_master_ack split: option.splits)
  also have "\<dots> = (6 \<le> unat (0 :: 32 word) + failed_writes (tx_steps w))"
    by (rule master_loop_ack_returns) simp
  finally show ?thesis by simp
qed

lemma master_gs_returns:
  "(snd (master_gs add w) \<noteq> None) = (6 \<le> failed_writes (tx_steps w))"
proof -
  have "(snd (master_gs add w) \<noteq> None)
          = (snd (master_loop_gs add 0 (payload w) (tx_steps w)) \<noteq> None)"
    by (auto simp: snd_master_gs split: option.splits)
  also have "\<dots> = (6 \<le> unat (0 :: 32 word) + failed_writes (tx_steps w))"
    by (rule master_loop_gs_returns) simp
  finally show ?thesis by simp
qed

lemma master_ack_result:
  assumes "snd (master_ack w) = Some w'"
  shows "\<exists>used. tx_steps w = used @ tx_steps w' \<and> failed_writes used = 6
           \<and> used \<noteq> [] \<and> \<not> report (last used)"
proof -
  from assms obtain f p' rest where
    r: "snd (master_loop_ack 0
              ((payload w)\<lparr>message := memcpy6 (message (payload w)) ''Hello ''\<rparr>)
              (tx_steps w)) = Some (f, p', rest)"
    and w': "w' = w\<lparr>payload := p', tx_steps := rest\<rparr>"
    by (auto simp: snd_master_ack split: option.splits)
  from master_loop_ack_result [OF _ r] w' show ?thesis by auto
qed

lemma master_gs_result:
  assumes "snd (master_gs add w) = Some w'"
  shows "\<exists>used. tx_steps w = used @ tx_steps w' \<and> failed_writes used = 6
           \<and> used \<noteq> [] \<and> \<not> report (last used)"
proof -
  from assms obtain f p' rest where
    r: "snd (master_loop_gs add 0 (payload w) (tx_steps w)) = Some (f, p', rest)"
    and w': "w' = w\<lparr>payload := p', tx_steps := rest\<rparr>"
    by (auto simp: snd_master_gs split: option.splits)
  from master_loop_gs_result [OF _ r] w' show ?thesis by auto
qed

lemma fst_master_ack:
  "snd (master_ack w) = Some w' \<Longrightarrow>
   \<exists>tr. fst (master_ack w)
     = tr @ [CoutNum 6, Cout '' failures detected. Leaving TX role.'', Endl]"
proof -
  assume r: "snd (master_ack w) = Some w'"
  define p where "p = (payload w)\<lparr>message := memcpy6 (message (payload w)) ''Hello ''\<rparr>"
  from r obtain f p' rest where
    l: "snd (master_loop_ack 0 p (tx_steps w)) = Some (f, p', rest)"
    by (auto simp: snd_master_ack p_def split: option.splits)
  from master_loop_ack_result [OF _ l] have "f = 6" by simp
  with l show ?thesis
    by (simp add: master_ack_def Let_def fst_and_then p_def [symmetric])
qed

lemma fst_master_gs:
  "snd (master_gs add w) = Some w' \<Longrightarrow>
   \<exists>tr. fst (master_gs add w)
     = tr @ [CoutNum 6, Cout '' failures detected, going back to setRole()'', Endl]"
proof -
  assume r: "snd (master_gs add w) = Some w'"
  from r obtain f p' rest where
    l: "snd (master_loop_gs add 0 (payload w) (tx_steps w)) = Some (f, p', rest)"
    by (auto simp: snd_master_gs split: option.splits)
  from master_loop_gs_result [OF _ l] have "f = 6" by simp
  with l show ?thesis
    by (simp add: master_gs_def fst_and_then)
qed

text \<open>
  Claim C1, as amended.  In both transmitter loops (\<^verbatim>\<open>master()\<close> of the
  ACK-payloads example and of GettingStarted) the failure counter counts all
  failed \<^verbatim>\<open>radio.write\<close> calls since \<^verbatim>\<open>master()\<close> was entered; a successful
  transmission does not reset it.  \<^verbatim>\<open>master()\<close> returns exactly when six of the
  calls have failed, and it returns right after the sixth failed call, whatever
  number of successful calls lies between the failures; the last thing it
  prints is the count 6 and its leaving message.
\<close>

theorem master_stops_at_six_failures:
  "(snd (master_ack w) \<noteq> None) = (6 \<le> failed_writes (tx_steps w))
   \<and> (\<forall>w'. snd (master_ack w) = Some w' \<longrightarrow>
         (\<exists>used. tx_steps w = used @ tx_steps w' \<and> failed_writes used = 6
            \<and> used \<noteq> [] \<and> \<not> report (last used))
         \<and> (\<exists>tr. fst (master_ack w)
               = tr @ [CoutNum 6, Cout '' failures detected. Leaving TX role.'', Endl]))
   \<and> (snd (master_gs add v) \<noteq> None) = (6 \<le> failed_writes (tx_steps v))
   \<and> (\<forall>v'. snd (master_gs add v) = Some v' \<longrightarrow>
         (\<exists>used. tx_steps v = used @ tx_steps v' \<and> failed_writes used = 6
            \<and> used \<noteq> [] \<and> \<not> report (last used))
         \<and> (\<exists>tr. fst (master_gs add v)
               = tr @ [CoutNum 6, Cout '' failures detected, going back to setRole()'', Endl]))"
  using master_ack_returns [of w] master_gs_returns [of add v]
    master_ack_result [of w] master_gs_result [of add v]
    fst_master_ack [of w] fst_master_gs [of add v]
  by blast

theorem master_stops_at_six_failures_witness:
  "(\<exists>w'. snd (master_ack (sample_world_ack [False, True, False, False, False, False, False, True]))
            = Some w'
          \<and> (\<exists>used. map sample_ack_step [False, True, False, False, False, False, False, True]
                       = used @ tx_steps w'
                \<and> failed_writes used = 6 \<and> used \<noteq> [] \<and> \<not> report (last used)))
   \<and> (\<exists>v'. snd (master_gs ((+) 1)
                  (sample_world_gs [False, True, False, False, False, False, False, True]))
            = Some v'
          \<and> (\<exists>used. map sample_step [False, True, False, False, False, False, False, True]
                       = used @ tx_steps v'
                \<and> failed_writes used = 6 \<and> used \<noteq> [] \<and> \<not> report (last used)))"
proof -
  let ?w = "sample_world_ack [False, True, False, False, False, False, False, True]"
  let ?v = "sample_world_gs [False, True, False, False, False, False, False, True]"
  note t = master_stops_at_six_failures [of ?w "(+) 1" ?v]
  have six: "6 \<le> failed_writes (tx_steps ?w)" "6 \<le> failed_writes (tx_steps ?v)"
    by (simp_all add: sample_world_ack_def sample_world_gs_def sample_ack_step_def
        sample_step_def)
  have tw: "tx_steps ?w = map sample_ack_step [False, True, False, False, False, False, False, True]"
    and tv: "tx_steps ?v = map sample_step [False, True, False, False, False, False, False, True]"
    by (simp_all add: sample_world_ack_def sample_world_gs_def)
  from t six obtain w' v' where
    "snd (master_ack ?w) = Some w'" "snd (master_gs ((+) 1) ?v) = Some v'" by auto
  with t show ?thesis unfolding tw tv by blast
qed

text \<open>
  Claim C1 as stated fails.  With the \<^verbatim>\<open>radio.write\<close> results failed, failed,
  failed, delivered, failed, failed, failed both transmitter loops end after the
  seventh call, where only three calls in a row have failed.
\<close>

theorem master_consecutive_counterexample:
  "map_option tx_steps
     (snd (master_ack (sample_world_ack [False, False, False, True, False, False, False]))) = Some []
   \<and> failures_in_a_row
       (tx_steps (sample_world_ack [False, False, False, True, False, False, False])) = 3
   \<and> map_option tx_steps
       (snd (master_gs ((+) 1) (sample_world_gs [False, False, False, True, False, False, False])))
       = Some []
   \<and> failures_in_a_row
       (tx_steps (sample_world_gs [False, False, False, True, False, False, False])) = 3"
  by (simp add: snd_master_ack snd_master_gs sample_world_ack_def sample_world_gs_def
      sample_ack_step_def sample_step_def failures_in_a_row_def Let_def)

subsection \<open>The receiver loops\<close>

lemma last_reset_Nil [simp]: "last_reset st [] = st"
  by (simp add: last_reset_def map_filter_simps)

lemma last_reset_Cons [simp]:
  "last_reset st (q # qs) = last_reset (case reset_time q of None \<Rightarrow> st | Some t \<Rightarrow> t) qs"
  by (simp add: last_reset_def map_filter_simps split: option.splits)

lemma expired_0 [simp]: "expired st (q # qs) 0 = (6 \<le> now q - st)"
  by (simp add: expired_def)

lemma expired_Suc [simp]:
  "expired st (q # qs) (Suc k) = expired (case reset_time q of None \<Rightarrow> st | Some t \<Rightarrow> t) qs k"
  by (simp add: expired_def)

lemma slave_loop_ack_step:
  "now q - st < 6 \<Longrightarrow>
   \<exists>p'. snd (slave_loop_ack st p (q # qs))
        = snd (slave_loop_ack (case reset_time q of None \<Rightarrow> st | Some t \<Rightarrow> t) p' qs)"
  by (auto simp: reset_time_def Let_def split: option.splits)

lemma slave_loop_gs_step:
  "now q - st < 6 \<Longrightarrow>
   \<exists>p'. snd (slave_loop_gs st p (q # qs))
        = snd (slave_loop_gs (case reset_time q of None \<Rightarrow> st | Some t \<Rightarrow> t) p' qs)"
  by (auto simp: reset_time_def Let_def split: option.splits)

lemma slave_loop_ack_result:
  "snd (slave_loop_ack st p polls) = Some (p', rest) \<Longrightarrow>
   \<exists>k<length polls. rest = drop (Suc k) polls \<and> expired st polls k
      \<and> (\<forall>i<k. \<not> expired st polls i)"
proof (induction polls arbitrary: st p)
  case Nil
  then show ?case by simp
next
  case (Cons q qs)
  show ?case
  proof (cases "now q - st < 6")
    case False
    with Cons.prems show ?thesis
      by (intro exI [of _ 0]) auto
  next
    case True
    define st' where "st' = (case reset_time q of None \<Rightarrow> st | Some t \<Rightarrow> t)"
    from slave_loop_ack_step [OF True] obtain p1 where
      "snd (slave_loop_ack st p (q # qs)) = snd (slave_loop_ack st' p1 qs)"
      unfolding st'_def by blast
    with Cons.prems have "snd (slave_loop_ack st' p1 qs) = Some (p', rest)" by simp
    from Cons.IH [OF this] obtain k where
      k: "k < length qs" "rest = drop (Suc k) qs" "expired st' qs k" "\<forall>i<k. \<not> expired st' qs i"
      by blast
    show ?thesis
    proof (intro exI [of _ "Suc k"] conjI allI impI)
      fix i assume "i < Suc k"
      then show "\<not> expired st (q # qs) i"
        using k(4) True by (cases i) (auto simp: st'_def)
    qed (use k in \<open>auto simp: st'_def\<close>)
  qed
qed

lemma slave_loop_ack_pending:
  "snd (slave_loop_ack st p polls) = None \<Longrightarrow> i < length polls \<Longrightarrow> \<not> expired st polls i"
proof (induction polls arbitrary: st p i)
  case Nil
  then show ?case by simp
next
  case (Cons q qs)
  have lt: "now q - st < 6" using Cons.prems(1) by (auto split: if_splits)
  define st' where "st' = (case reset_time q of None \<Rightarrow> st | Some t \<Rightarrow> t)"
  from slave_loop_ack_step [OF lt] obtain p1 where
    "snd (slave_loop_ack st p (q # qs)) = snd (slave_loop_ack st' p1 qs)"
    unfolding st'_def by blast
  with Cons.prems have r: "snd (slave_loop_ack st' p1 qs) = None" by simp
  show ?case
    using Cons.IH [OF r] Cons.prems(2) lt by (cases i) (auto simp: st'_def)
qed

lemma slave_loop_gs_result:
  "snd (slave_loop_gs st p polls) = Some (p', rest) \<Longrightarrow>
   \<exists>k<length polls. rest = drop (Suc k) polls \<and> expired st polls k
      \<and> (\<forall>i<k. \<not> expired st polls i)"
proof (induction polls arbitrary: st p)
  case Nil
  then show ?case by simp
next
  case (Cons q qs)
  show ?case
  proof (cases "now q - st < 6")
    case False
    with Cons.prems show ?thesis
      by (intro exI [of _ 0]) auto
  next
    case True
    define st' where "st' = (case reset_time q of None \<Rightarrow> st | Some t \<Rightarrow> t)"
    from slave_loop_gs_step [OF True] obtain p1 where
      "snd (slave_loop_gs st p (q # qs)) = snd (slave_loop_gs st' p1 qs)"
      unfolding st'_def by blast
    with Cons.prems have "snd (slave_loop_gs st' p1 qs) = Some (p', rest)" by simp
    from Cons.IH [OF this] obtain k where
      k: "k < length qs" "rest = drop (Suc k) qs" "expired st' qs k" "\<forall>i<k. \<not> expired st' qs i"
      by blast
    show ?thesis
    proof (intro exI [of _ "Suc k"] conjI allI impI)
      fix i assume "i < Suc k"
      then show "\<not> expired st (q # qs) i"
        using k(4) True by (cases i) (auto simp: st'_def)
    qed (use k in \<open>auto simp: st'_def\<close>)
  qed
qed

lemma slave_loop_gs_pending:
  "snd (slave_loop_gs st p polls) = None \<Longrightarrow> i < length polls \<Longrightarrow> \<not> expired st polls i"
proof (induction polls arbitrary: st p i)
  case Nil
  then show ?case by simp
next
  case (Cons q qs)
  have lt: "now q - st < 6" using Cons.prems(1) by (auto split: if_splits)
  define st' where "st' = (case reset_time q of None \<Rightarrow> st | Some t \<Rightarrow> t)"
  from slave_loop_gs_step [OF lt] obtain p1 where
    "snd (slave_loop_gs st p (q # qs)) = snd (slave_loop_gs st' p1 qs)"
    unfolding st'_def by blast
  with Cons.prems have r: "snd (slave_loop_gs st' p1 qs) = None" by simp
  show ?case
    using Cons.IH [OF r] Cons.prems(2) lt by (cases i) (auto simp: st'_def)
qed

lemma snd_slave_ack:
  "rx_entry w = st # entries \<Longrightarrow>
   snd (slave_ack w)
     = (case snd (slave_loop_ack st
                    ((payload w)\<lparr>message := memcpy6 (message (payload w)) ''World ''\<rparr>)
                    (rx_polls w)) of
          None \<Rightarrow> None
        | Some (p', rest) \<Rightarrow> Some (w\<lparr>payload := p', rx_entry := entries, rx_polls := rest\<rparr>))"
  by (simp add: slave_ack_def Let_def snd_and_then split: option.splits prod.splits)

lemma snd_slave_gs:
  "rx_entry w = st # entries \<Longrightarrow>
   snd (slave_gs w)
     = (case snd (slave_loop_gs st (payload w) (rx_polls w)) of
          None \<Rightarrow> None
        | Some (p', rest) \<Rightarrow> Some (w\<lparr>payload := p', rx_entry := entries, rx_polls := rest\<rparr>))"
  by (simp add: slave_gs_def snd_and_then split: option.splits prod.splits)

lemma slave_ack_result:
  assumes "rx_entry w = st # entries" "snd (slave_ack w) = Some w'"
  shows "\<exists>k<length (rx_polls w). rx_polls w' = drop (Suc k) (rx_polls w)
           \<and> expired st (rx_polls w) k \<and> (\<forall>i<k. \<not> expired st (rx_polls w) i)"
proof -
  from assms obtain p' rest where
    r: "snd (slave_loop_ack st
              ((payload w)\<lparr>message := memcpy6 (message (payload w)) ''World ''\<rparr>)
              (rx_polls w)) = Some (p', rest)"
    and w': "w' = w\<lparr>payload := p', rx_entry := entries, rx_polls := rest\<rparr>"
    by (auto simp: snd_slave_ack split: option.splits)
  from slave_loop_ack_result [OF r] w' show ?thesis by auto
qed

lemma slave_ack_pending:
  assumes "rx_entry w = st # entries" "snd (slave_ack w) = None" "i < length (rx_polls w)"
  shows "\<not> expired st (rx_polls w) i"
proof -
  from assms have
    "snd (slave_loop_ack st
           ((payload w)\<lparr>message := memcpy6 (message (payload w)) ''World ''\<rparr>)
           (rx_polls w)) = None"
    by (auto simp: snd_slave_ack split: option.splits)
  from slave_loop_ack_pending [OF this assms(3)] show ?thesis .
qed

lemma slave_gs_result:
  assumes "rx_entry w = st # entries" "snd (slave_gs w) = Some w'"
  shows "\<exists>k<length (rx_polls w). rx_polls w' = drop (Suc k) (rx_polls w)
           \<and> expired st (rx_polls w) k \<and> (\<forall>i<k. \<not> expired st (rx_polls w) i)"
proof -
  from assms obtain p' rest where
    r: "snd (slave_loop_gs st (payload w) (rx_polls w)) = Some (p', rest)"
    and w': "w' = w\<lparr>payload := p', rx_entry := entries, rx_polls := rest\<rparr>"
    by (auto simp: snd_slave_gs split: option.splits)
  from slave_loop_gs_result [OF r] w' show ?thesis by auto
qed

lemma slave_gs_pending:
  assumes "rx_entry w = st # entries" "snd (slave_gs w) = None" "i < length (rx_polls w)"
  shows "\<not> expired st (rx_polls w) i"
proof -
  from assms have "snd (slave_loop_gs st (payload w) (rx_polls w)) = None"
    by (auto simp: snd_slave_gs split: option.splits)
  from slave_loop_gs_pending [OF this assms(3)] show ?thesis .
qed

text \<open>
  Claim C6.  In both receiver loops (\<^verbatim>\<open>slave()\<close> of the ACK-payloads example and of
  GettingStarted) the timer is the reading of \<^verbatim>\<open>time(nullptr)\<close> taken at the last
  payload received, or on entry when none was received.  \<^verbatim>\<open>slave()\<close> returns
  exactly when some loop test reads a time 6 seconds or more after the timer; it
  leaves at the first such test, and every test before it read less than 6
  seconds after the timer.
\<close>

theorem slave_leaves_at_first_expiry:
  assumes "rx_entry w = st # entries" and "rx_entry v = sv # entries'"
  shows "(snd (slave_ack w) \<noteq> None) = (\<exists>k<length (rx_polls w). expired st (rx_polls w) k)
   \<and> (\<forall>w'. snd (slave_ack w) = Some w' \<longrightarrow>
         (\<exists>k<length (rx_polls w). rx_polls w' = drop (Suc k) (rx_polls w)
            \<and> expired st (rx_polls w) k \<and> (\<forall>i<k. \<not> expired st (rx_polls w) i)))
   \<and> (snd (slave_gs v) \<noteq> None) = (\<exists>k<length (rx_polls v). expired sv (rx_polls v) k)
   \<and> (\<forall>v'. snd (slave_gs v) = Some v' \<longrightarrow>
         (\<exists>k<length (rx_polls v). rx_polls v' = drop (Suc k) (rx_polls v)
            \<and> expired sv (rx_polls v) k \<and> (\<forall>i<k. \<not> expired sv (rx_polls v) i)))"
proof (intro conjI allI impI)
  show "(snd (slave_ack w) \<noteq> None) = (\<exists>k<length (rx_polls w). expired st (rx_polls w) k)"
    using slave_ack_result [OF assms(1)] slave_ack_pending [OF assms(1)]
    by (cases "snd (slave_ack w)") auto
  show "(snd (slave_gs v) \<noteq> None) = (\<exists>k<length (rx_polls v). expired sv (rx_polls v) k)"
    using slave_gs_result [OF assms(2)] slave_gs_pending [OF assms(2)]
    by (cases "snd (slave_gs v)") auto
qed (use slave_ack_result [OF assms(1)] slave_gs_result [OF assms(2)] in blast)+

theorem slave_leaves_at_first_expiry_witness:
  "rx_entry (sample_rx_world payload0
       [sample_poll 101, sample_arrival 104 payload0 104, sample_poll 109, sample_poll 110,
        sample_poll 111] :: (PayloadStruct, ack_tx_step) world) = [100]
   \<and> expired 100
        [sample_poll 101, sample_arrival 104 payload0 104, sample_poll 109, sample_poll 110,
         sample_poll 111] 3
   \<and> snd (slave_ack (sample_rx_world payload0
        [sample_poll 101, sample_arrival 104 payload0 104, sample_poll 109, sample_poll 110,
         sample_poll 111])) \<noteq> None
   \<and> snd (slave_gs (sample_rx_world (0::int)
        [sample_poll 101, sample_arrival 104 7 104, sample_poll 109, sample_poll 110,
         sample_poll 111] :: (int, tx_step) world)) \<noteq> None"
proof -
  let ?ps = "[sample_poll 101, sample_arrival 104 payload0 104, sample_poll 109,
              sample_poll 110, sample_poll 111]"
  let ?qs = "[sample_poll 101, sample_arrival 104 (7::int) 104, sample_poll 109,
              sample_poll 110, sample_poll 111]"
  let ?w = "sample_rx_world payload0 ?ps :: (PayloadStruct, ack_tx_step) world"
  let ?v = "sample_rx_world (0::int) ?qs :: (int, tx_step) world"
  have e: "rx_entry ?w = 100 # []" "rx_entry ?v = 100 # []"
    by (simp_all add: sample_rx_world_def)
  have p: "rx_polls ?w = ?ps" "rx_polls ?v = ?qs"
    by (simp_all add: sample_rx_world_def)
  have x: "expired 100 ?ps 3" "expired 100 ?qs 3"
    by (simp_all add: expired_def last_reset_def reset_time_def map_filter_simps
        sample_poll_def sample_arrival_def)
  then have "\<exists>k<length ?ps. expired 100 ?ps k" "\<exists>k<length ?qs. expired 100 ?qs k"
    by (auto intro: exI [of _ 3])
  with slave_leaves_at_first_expiry [OF e] e x show ?thesis
    unfolding p by simp
qed

subsection \<open>setRole\<close>

lemma emit_emit: "emit es (emit es' r) = emit (es @ es') r"
  by (simp add: emit_def)

lemma emit_Nil_run: "emit es ([], x) = (es, x)"
  by (simp add: emit_def)

text \<open>
  Claim C8.  \<^verbatim>\<open>setRole()\<close> looks at the first character of each line only.  For
  \<open>T\<close> or \<open>t\<close> it calls \<^verbatim>\<open>master()\<close> and then shows the menu again, for \<open>R\<close> or
  \<open>r\<close> it calls \<^verbatim>\<open>slave()\<close> and then shows the menu again, for \<open>Q\<close> or \<open>q\<close> it
  returns; for any other first character it prints the invalid-input message and
  shows the menu again, and for an empty line it shows the menu again without
  calling anything.
\<close>

theorem setRole_dispatch:
  "setRole master slave ([] # lines) w = emit menu (setRole master slave lines w)
   \<and> (c = CHR ''T'' \<or> c = CHR ''t'' \<longrightarrow>
        setRole master slave ((c # cs) # lines) w
          = emit menu (and_then (master w) (\<lambda>w'. setRole master slave lines w')))
   \<and> (c = CHR ''R'' \<or> c = CHR ''r'' \<longrightarrow>
        setRole master slave ((c # cs) # lines) w
          = emit menu (and_then (slave w) (\<lambda>w'. setRole master slave lines w')))
   \<and> (c = CHR ''Q'' \<or> c = CHR ''q'' \<longrightarrow>
        setRole master slave ((c # cs) # lines) w = (menu, Some w))
   \<and> (c \<notin> {CHR ''T'', CHR ''t'', CHR ''R'', CHR ''r'', CHR ''Q'', CHR ''q''} \<longrightarrow>
        setRole master slave ((c # cs) # lines) w
          = emit (menu @ [CoutChar c, Cout '' is an invalid input. Please try again.'', Endl])
              (setRole master slave lines w))"
  by (auto simp: emit_emit emit_Nil_run)

theorem setRole_dispatch_witness:
  "setRole master_ack slave_ack [''x-ray'', [], ''quit'', ''t''] (sample_world_ack [])
     = (menu @ [CoutChar (CHR ''x''), Cout '' is an invalid input. Please try again.'', Endl]
        @ menu @ menu, Some (sample_world_ack []))
   \<and> snd (setRole master_ack slave_ack [''Receive'']
            (sample_rx_world payload0 [sample_poll 106])) = None
   \<and> snd (setRole master_ack slave_ack [''transmit'', ''Q'']
            (sample_world_ack [False, False, False, False, False, False]))
       = Some ((sample_world_ack [])\<lparr>payload := payload0\<lparr>message := ''Hello '' @ [NUL]\<rparr>\<rparr>)"
  using setRole_dispatch [of master_ack slave_ack "[''quit'', ''t'']" "sample_world_ack []"
      "CHR ''x''" "''-ray''"]
    setRole_dispatch [of master_ack slave_ack "[''t'']" "sample_world_ack []"
      "CHR ''q''" "''uit''"]
    setRole_dispatch [of master_ack slave_ack "[]" "sample_rx_world payload0 [sample_poll 106]"
      "CHR ''R''" "''eceive''"]
    setRole_dispatch [of master_ack slave_ack "[''Q'']"
      "sample_world_ack [False, False, False, False, False, False]"
      "CHR ''t''" "''ransmit''"]
  by (simp add: emit_def and_then_def snd_master_ack sample_world_ack_def sample_ack_step_def
      sample_rx_world_def sample_poll_def slave_ack_def master_ack_def Let_def payload0_def
      memcpy6_def)

subsection \<open>The interrupt handler\<close>

text \<open>
  Claim C7.  The handler of SIGINT makes one call on the radio,
  \<^verbatim>\<open>radio.powerDown()\<close>, and makes it before it ends the process; ending the
  process (with exit code 0) is the last thing it does.  Every run of \<^verbatim>\<open>main\<close>
  that gets past the command line installs the handler.
\<close>

theorem interrupt_handler_powers_down_then_exits:
  "filter is_radio (programInterruptHandler s :: 'p event list) = [Radio PowerDown]
   \<and> filter is_exit (programInterruptHandler s :: 'p event list) = [Exit 0]
   \<and> last (programInterruptHandler s :: 'p event list) = Exit 0
   \<and> Radio PowerDown
       \<in> set (takeWhile (\<lambda>ev. \<not> is_exit ev) (programInterruptHandler s :: 'p event list))
   \<and> Sigaction_SIGINT \<in> set (run_ack e progName f)"
proof -
  have "Sigaction_SIGINT \<in> set (run_ack e progName f)"
    by (cases "getline (stdin e)") (simp add: run_ack_def Let_def)
  then show ?thesis
    by (simp add: programInterruptHandler_def is_radio_def is_exit_def)
qed

subsection \<open>The hardware check\<close>

lemma hold_None: "hold u = None"
proof (cases "hold u")
  case None
  then show ?thesis .
next
  case (Some y)
  have "hold u = Some y \<Longrightarrow> False"
    by (rule hold.raw_induct [where P = "\<lambda>_ _. False"]) auto
  with Some show ?thesis by simp
qed

lemma wait_serial_returns: "ready (i + k) \<Longrightarrow> \<exists>j. wait_serial ready i = Some j"
proof (induction k arbitrary: i)
  case 0
  then show ?case by (simp add: wait_serial.simps)
next
  case (Suc k)
  from Suc.prems have "ready (Suc i + k)" by simp
  from Suc.IH [OF this] obtain j where "wait_serial ready (Suc i) = Some j" ..
  then show ?case by (subst wait_serial.simps) simp
qed

lemma arduino_not_responding:
  assumes "ready k"
  shows "arduino_setup ready False sketch_role p
           = ([SerialBegin 115200, Radio Begin, SerialPrintln ''nRF24L01 is not responding!!''],
              None)"
proof -
  from assms wait_serial_returns [of ready 0 k] obtain j where "wait_serial ready 0 = Some j"
    by auto
  then show ?thesis
    by (simp add: arduino_setup_def Let_def hold_None emit_def)
qed

text \<open>
  Claim C3, as amended.  When \<^verbatim>\<open>radio.begin()\<close> returns false, the two Linux
  examples print their not-responding message and return 0 from \<^verbatim>\<open>main\<close>, having
  done nothing else.  The Arduino sketch ManualAcknowledgements, once \<^verbatim>\<open>Serial\<close> is
  ready, prints its not-responding message and then holds in an infinite loop:
  \<^verbatim>\<open>setup()\<close> never returns and nothing ends the program.
\<close>

theorem not_responding_at_startup:
  "(\<not> begin_ok e \<longrightarrow>
      main_ack e (progName # args)
        = [Radio Begin, Cout ''radio hardware is not responding!!'', Endl, Exit 0])
   \<and> (\<not> begin_ok g \<longrightarrow>
      main_gs add p0 g argv = [Radio Begin, Cout ''nRF24L01 is not responding!!'', Endl, Exit 0])
   \<and> (ready k \<longrightarrow>
      arduino_setup ready False sketch_role p
        = ([SerialBegin 115200, Radio Begin, SerialPrintln ''nRF24L01 is not responding!!''],
           None))"
  using arduino_not_responding [of ready k sketch_role p]
  by (simp add: main_gs_def Let_def)

theorem not_responding_at_startup_witness:
  "\<not> begin_ok (sample_env False [] :: (PayloadStruct, ack_tx_step) env)
   \<and> main_ack (sample_env False []) [''ack'', ''-n'', ''1'']
       = [Radio Begin, Cout ''radio hardware is not responding!!'', Endl, Exit 0]
   \<and> main_gs ((+) 1) (0::int) (sample_env False []) [''gs'']
       = [Radio Begin, Cout ''nRF24L01 is not responding!!'', Endl, Exit 0]
   \<and> serial_ready_at 2 3
   \<and> snd (arduino_setup (serial_ready_at 2) False False payload0) = None"
  using not_responding_at_startup [of "sample_env False []" "''ack''" "[''-n'', ''1'']"
      "sample_env False []" "(+) 1" "0::int" "[''gs'']" "serial_ready_at 2" 3 False payload0]
  by (simp add: sample_env_def serial_ready_at_def)

text \<open>
  Claim C3 as stated fails for the Arduino sketch: with \<^verbatim>\<open>Serial\<close> ready at once and
  \<^verbatim>\<open>radio.begin()\<close> false, \<^verbatim>\<open>setup()\<close> prints the message and does not return, and
  no event ends a process.
\<close>

theorem arduino_never_exits_counterexample:
  "arduino_setup (serial_ready_at 0) False False payload0
     = ([SerialBegin 115200, Radio Begin, SerialPrintln ''nRF24L01 is not responding!!''], None)
   \<and> filter is_exit (fst (arduino_setup (serial_ready_at 0) False False payload0)) = []"
  using arduino_not_responding [of "serial_ready_at 0" 0 False payload0]
  by (simp add: serial_ready_at_def is_exit_def)

subsection \<open>Events of the roles\<close>

lemma role_event_emit:
  "(\<forall>ev\<in>set (fst (emit es r)). role_event ev)
     = ((\<forall>ev\<in>set es. role_event ev) \<and> (\<forall>ev\<in>set (fst r). role_event ev))"
  by (auto simp: emit_def)

lemma master_loop_ack_events: "\<forall>ev\<in>set (fst (master_loop_ack f p steps)). role_event ev"
  by (induction f p steps rule: master_loop_ack.induct)
    (auto simp: Let_def role_event_def split: option.splits)

lemma master_loop_gs_events: "\<forall>ev\<in>set (fst (master_loop_gs add f p steps)). role_event ev"
  by (induction add f p steps rule: master_loop_gs.induct)
    (auto simp: Let_def role_event_def split: option.splits)

lemma slave_loop_ack_events: "\<forall>ev\<in>set (fst (slave_loop_ack st p polls)). role_event ev"
  by (induction st p polls rule: slave_loop_ack.induct)
    (auto simp: Let_def role_event_def split: option.splits)

lemma slave_loop_gs_events: "\<forall>ev\<in>set (fst (slave_loop_gs st p polls)). role_event ev"
  by (induction st p polls rule: slave_loop_gs.induct)
    (auto simp: Let_def role_event_def split: option.splits)

lemma master_ack_events: "\<forall>ev\<in>set (fst (master_ack w)). role_event ev"
  using master_loop_ack_events
  by (auto simp: master_ack_def Let_def fst_and_then role_event_def split: option.splits)

lemma master_gs_events: "\<forall>ev\<in>set (fst (master_gs add w)). role_event ev"
  using master_loop_gs_events [of add]
  by (auto simp: master_gs_def Let_def fst_and_then role_event_def split: option.splits)

lemma slave_ack_events: "\<forall>ev\<in>set (fst (slave_ack w)). role_event ev"
  using slave_loop_ack_events
  by (auto simp: slave_ack_def Let_def fst_and_then role_event_def split: option.splits list.splits)

lemma slave_gs_events: "\<forall>ev\<in>set (fst (slave_gs w)). role_event ev"
  using slave_loop_gs_events [of _ "payload w" "rx_polls w"]
  by (auto simp: slave_gs_def Let_def fst_and_then role_event_def split: option.splits list.splits)

lemma setRole_no_exit:
  assumes "\<And>w. \<forall>ev\<in>set (fst (master w)). role_event ev"
    and "\<And>w. \<forall>ev\<in>set (fst (slave w)). role_event ev"
  shows "\<forall>ev\<in>set (fst (setRole master slave lines w)). \<not> is_exit ev"
proof (induction lines arbitrary: w)
  case Nil
  then show ?case by (simp add: menu_def is_exit_def)
next
  case (Cons l ls)
  have m: "\<not> is_exit ev" if "ev \<in> set (fst (master w))" for ev w
    using assms(1) [of w] that by (auto simp: role_event_def is_exit_def split: event.splits)
  have s: "\<not> is_exit ev" if "ev \<in> set (fst (slave w))" for ev w
    using assms(2) [of w] that by (auto simp: role_event_def is_exit_def split: event.splits)
  have menu: "\<forall>ev\<in>set menu. \<not> is_exit ev" by (simp add: menu_def is_exit_def)
  show ?case
    using Cons.IH m s menu
    by (auto simp: fst_and_then is_exit_def split: option.splits)
qed

lemma return0_exit:
  "\<forall>ev\<in>set (fst r). \<not> is_exit ev \<Longrightarrow> Exit c \<in> set (return0 r) \<Longrightarrow> c = 0"
  by (auto simp: return0_def is_exit_def split: option.splits)

lemma role_event_not_exit: "role_event ev \<Longrightarrow> \<not> is_exit ev"
  by (auto simp: role_event_def is_exit_def split: event.splits)

lemma role_event_not_getline: "role_event ev \<Longrightarrow> ev \<noteq> Getline"
  by (auto simp: role_event_def)

subsection \<open>The command line\<close>

lemma not_both: "\<not> (node_option opt \<and> role_option opt)"
  by (auto simp: node_option_def role_option_def)

lemma given_simps [simp]:
  "node_given [] = False" "role_given [] = False" "bad_value sg [] = False"
  "node_given (opt # val # rest) = (node_option opt \<or> node_given rest)"
  "role_given (opt # val # rest) = (role_option opt \<or> role_given rest)"
  "bad_value sg (opt # val # rest)
     = (((node_option opt \<or> role_option opt) \<and> rejected_value sg val) \<or> bad_value sg rest)"
  by (simp_all add: node_given_def role_given_def bad_value_def)

lemma parse_args_None:
  "even (length args) \<Longrightarrow> (parse_args sg f args = None) = bad_value sg args"
proof (induction sg f args rule: parse_args.induct)
  case (1 sg f)
  then show ?case by simp
next
  case (2 sg f opt val rest)
  then show ?case
    by (auto simp: node_option_def role_option_def rejected_value_def)
next
  case (3 sg f v)
  then show ?case by simp
qed

lemma parse_args_Some:
  "even (length args) \<Longrightarrow> parse_args sg f args = Some f' \<Longrightarrow>
   foundArgNode f' = (foundArgNode f \<or> node_given args)
   \<and> foundArgRole f' = (foundArgRole f \<or> role_given args)"
proof (induction sg f args rule: parse_args.induct)
  case (1 sg f)
  then show ?case by simp
next
  case (2 sg f opt val rest)
  then show ?case
    by (auto simp: node_option_def role_option_def split: if_splits)
next
  case (3 sg f v)
  then show ?case by simp
qed

lemma option_values_simps [simp]:
  "option_values is_opt [] = []"
  "option_values is_opt (opt # val # rest)
     = (if is_opt opt then val # option_values is_opt rest else option_values is_opt rest)"
  by (simp_all add: option_values_def)

lemma node_given_values: "node_given args = (option_values node_option args \<noteq> [])"
  by (induction args rule: pairs.induct) (simp_all add: node_given_def option_values_def)

lemma role_given_values: "role_given args = (option_values role_option args \<noteq> [])"
  by (induction args rule: pairs.induct) (simp_all add: role_given_def option_values_def)

lemma parse_args_values:
  "even (length args) \<Longrightarrow> parse_args sg f args = Some f' \<Longrightarrow>
   radioNumber f'
     = (if node_given args then selects_one sg (last (option_values node_option args))
        else radioNumber f)
   \<and> role f'
     = (if role_given args then selects_one sg (last (option_values role_option args))
        else role f)"
proof (induction sg f args rule: parse_args.induct)
  case (1 sg f)
  then show ?case by simp
next
  case (2 sg f opt val rest)
  show ?case
  proof (cases "node_option opt")
    case True
    then have nr: "\<not> role_option opt" using not_both [of opt] by simp
    from True 2 show ?thesis
      using nr by (auto simp: node_option_def selects_one_def node_given_values split: if_splits)
  next
    case False
    note nn = this
    show ?thesis
    proof (cases "role_option opt")
      case True
      with nn 2 show ?thesis
        by (auto simp: node_option_def role_option_def selects_one_def role_given_values
            split: if_splits)
    next
      case False
      with nn 2 show ?thesis
        by (auto simp: node_option_def role_option_def)
    qed
  qed
next
  case (3 sg f v)
  then show ?case by simp
qed

lemma main_ack_rejected:
  assumes "begin_ok e" "rejected_cli (char_signed e) args"
  shows "main_ack e (progName # args) = Radio Begin # printHelp progName @ [Exit 0]"
proof (cases "odd (length args)")
  case True
  then have "(1 + int (length args) - 1) mod 2 \<noteq> 0"
    by presburger
  with assms True show ?thesis
    by (auto simp: Let_def rejected_cli_def)
next
  case False
  then have ev: "even (length args)" by simp
  then have m: "(1 + int (length args) - 1) mod 2 = 0" by presburger
  from assms have ne: "args \<noteq> []" by (simp add: rejected_cli_def)
  then have gt: "0 < length args" by simp
  show ?thesis
  proof (cases "parse_args (char_signed e)
      \<lparr>radioNumber = True, foundArgNode = False, foundArgRole = False, role = False\<rparr> args")
    case None
    with assms(1) m gt show ?thesis by (simp add: Let_def)
  next
    case (Some f)
    with parse_args_None [OF ev, of "char_signed e"] have nb: "\<not> bad_value (char_signed e) args"
      by auto
    with assms(2) False have "\<not> node_given args \<and> \<not> role_given args"
      by (simp add: rejected_cli_def)
    with parse_args_Some [OF ev Some] have "\<not> foundArgNode f \<and> \<not> foundArgRole f" by simp
    with assms(1) m gt Some show ?thesis by (simp add: Let_def)
  qed
qed

lemma main_ack_accepted:
  assumes "begin_ok e" "\<not> rejected_cli (char_signed e) args"
  shows "\<exists>f. main_ack e (progName # args) = Radio Begin # run_ack e progName f
           \<and> foundArgNode f = node_given args \<and> foundArgRole f = role_given args
           \<and> radioNumber f
               = (if node_given args
                  then selects_one (char_signed e) (last (option_values node_option args))
                  else True)
           \<and> role f
               = (if role_given args
                  then selects_one (char_signed e) (last (option_values role_option args))
                  else False)"
proof (cases "args = []")
  case True
  with assms(1) show ?thesis
    by (intro exI [of _ "\<lparr>radioNumber = True, foundArgNode = False, foundArgRole = False,
        role = False\<rparr>"]) (simp add: Let_def)
next
  case False
  with assms(2) have ev: "even (length args)" and nb: "\<not> bad_value (char_signed e) args"
    and gv: "node_given args \<or> role_given args"
    by (auto simp: rejected_cli_def)
  from ev have m: "(1 + int (length args) - 1) mod 2 = 0" by presburger
  from False have gt: "0 < length args" by simp
  from nb parse_args_None [OF ev, of "char_signed e"] obtain f where
    f: "parse_args (char_signed e)
      \<lparr>radioNumber = True, foundArgNode = False, foundArgRole = False, role = False\<rparr> args = Some f"
    by fastforce
  from parse_args_Some [OF ev f] have
    fg: "foundArgNode f = node_given args" "foundArgRole f = role_given args" by simp_all
  from parse_args_values [OF ev f] have
    fv: "radioNumber f
           = (if node_given args
              then selects_one (char_signed e) (last (option_values node_option args))
              else True)"
        "role f
           = (if role_given args
              then selects_one (char_signed e) (last (option_values role_option args))
              else False)"
    by simp_all
  have "main_ack e (progName # args) = Radio Begin # run_ack e progName f"
    using fg gv assms(1) m gt f by (auto simp: Let_def)
  with fg fv show ?thesis
    by (intro exI [of _ f]) (simp only: simp_thms)
qed

lemma unat_of_char: "unat (of_char c :: 8 word) = of_char c"
proof -
  have "(of_char c :: 8 word) = of_nat (of_char c)"
    by (simp only: of_nat_of_char)
  then have "unat (of_char c :: 8 word) = (of_char c :: nat) mod 2 ^ LENGTH(8)"
    by (simp only: unat_of_nat)
  also have "\<dots> = of_char c"
    using nat_of_char_less_256 [of c] by simp
  finally show ?thesis .
qed

lemma one_code: "((of_char c :: 8 word) = 49) = (c = CHR ''1'')"
proof -
  have "((of_char c :: 8 word) = 49) = (unat (of_char c :: 8 word) = unat (49 :: 8 word))"
    by (rule word_unat_eq_iff)
  also have "\<dots> = ((of_char c :: nat) = of_char (CHR ''1''))"
    by (simp add: unat_of_char)
  also have "\<dots> = (c = CHR ''1'')"
    by (rule of_char_eq_iff)
  finally show ?thesis .
qed

lemma digit_not_rejected:
  "first_char val \<in> {CHR ''0'', CHR ''1''} \<Longrightarrow> \<not> rejected_value sg val"
  by (auto simp: rejected_value_def char_to_int_def)

lemma well_formed_not_bad: 
  "\<forall>(opt, val)\<in>set (pairs args).
      node_option opt \<or> role_option opt \<longrightarrow> first_char val \<in> {CHR ''0'', CHR ''1''}
   \<Longrightarrow> \<not> bad_value sg args"
  unfolding bad_value_def using digit_not_rejected by fastforce

lemma well_formed_accepted: "well_formed_cli args \<Longrightarrow> \<not> rejected_cli sg args"
  using well_formed_not_bad [of args sg]
  by (auto simp: well_formed_cli_def rejected_cli_def)

lemma printHelp_radio: "filter is_radio (printHelp progName :: 'p event list) = []"
  by (simp add: printHelp_def is_radio_def)

lemma run_ack_start:
  "take 2 (run_ack e progName f) = [Cout progName, Endl]
   \<and> Radio EnableDynamicPayloads \<in> set (run_ack e progName f)"
  by (simp add: run_ack_def Let_def split: prod.splits)

text \<open>
  Claim C2, as amended.  When \<^verbatim>\<open>radio.begin()\<close> has succeeded and the command line
  of the ACK-payloads example is rejected (it has an odd number of arguments, or
  a \<open>-n\<close>, \<open>--node\<close>, \<open>-r\<close> or \<open>--role\<close> whose value starts with a character above
  \<open>1\<close>, or no such option at all), \<^verbatim>\<open>main\<close> prints the usage text with
  \<^verbatim>\<open>printHelp\<close> and returns 0; \<^verbatim>\<open>radio.begin()\<close> is its only call on the radio and no
  role is entered.  When the command line is well formed, \<^verbatim>\<open>main\<close> prints the
  program's name and goes on to configure the radio, whatever other options
  stand beside the recognised ones.
\<close>

theorem usage_on_rejected_command_line:
  "begin_ok e \<longrightarrow>
     (rejected_cli (char_signed e) args \<longrightarrow>
        main_ack e (progName # args) = Radio Begin # printHelp progName @ [Exit 0]
        \<and> filter is_radio (main_ack e (progName # args)) = [Radio Begin])
     \<and> (well_formed_cli args \<longrightarrow>
          take 3 (main_ack e (progName # args)) = [Radio Begin, Cout progName, Endl]
          \<and> Radio EnableDynamicPayloads \<in> set (main_ack e (progName # args)))"
proof (intro impI conjI)
  assume b: "begin_ok e" and r: "rejected_cli (char_signed e) args"
  from main_ack_rejected [OF b r] show
    m: "main_ack e (progName # args) = Radio Begin # printHelp progName @ [Exit 0]" .
  show "filter is_radio (main_ack e (progName # args)) = [Radio Begin]"
    unfolding m by (simp add: printHelp_radio) (simp add: is_radio_def)
next
  assume b: "begin_ok e" and w: "well_formed_cli args"
  from main_ack_accepted [OF b well_formed_accepted [OF w]] obtain f where
    m: "main_ack e (progName # args) = Radio Begin # run_ack e progName f" by blast
  have t: "take 3 (Radio Begin # xs) = Radio Begin # take 2 xs" for xs :: "PayloadStruct event list"
    by (simp add: numeral_3_eq_3 numeral_2_eq_2)
  show "take 3 (main_ack e (progName # args)) = [Radio Begin, Cout progName, Endl]"
    unfolding m t using run_ack_start [of e progName f] by simp
  show "Radio EnableDynamicPayloads \<in> set (main_ack e (progName # args))"
    unfolding m using run_ack_start [of e progName f] by simp
qed

theorem usage_on_rejected_command_line_witness:
  "begin_ok (sample_env True [''q''] :: (PayloadStruct, ack_tx_step) env)
   \<and> rejected_cli True [''-n'']
   \<and> rejected_cli True [''-r'', ''2'']
   \<and> rejected_cli True [''--speed'', ''1'']
   \<and> main_ack (sample_env True [''q'']) [''ack'', ''-r'', ''2'']
       = Radio Begin # printHelp ''ack'' @ [Exit 0]
   \<and> well_formed_cli [''--node'', ''0'']
   \<and> take 3 (main_ack (sample_env True [''q'']) [''ack'', ''--node'', ''0''])
       = [Radio Begin, Cout ''ack'', Endl]"
  using usage_on_rejected_command_line [of "sample_env True [''q'']" "[''-r'', ''2'']" "''ack''"]
    usage_on_rejected_command_line [of "sample_env True [''q'']" "[''--node'', ''0'']" "''ack''"]
  by (simp add: sample_env_def rejected_cli_def rejected_value_def char_to_int_def
      first_char_def node_option_def role_option_def well_formed_cli_def)

text \<open>
  Claim C2 as stated fails: with the unrecognised option \<open>--bogus\<close> beside \<open>-n 1\<close>
  \<^verbatim>\<open>main\<close> prints no usage text, configures the radio and shows the role menu.
\<close>

theorem unrecognised_option_counterexample:
  "main_ack (sample_env True [''q'']) [''ack'', ''-n'', ''1'', ''--bogus'', ''1'']
     = [Radio Begin, Cout ''ack'', Endl,
        Radio EnableDynamicPayloads, Radio EnableAckPayload, Radio (SetPALevel RF24_PA_LOW),
        Radio (OpenWritingPipe ''2Node''), Radio (OpenReadingPipe 1 ''1Node''),
        Sigaction_SIGINT] @ menu @ [Exit 0]"
  by (simp add: sample_env_def Let_def run_ack_def enter_role_def char_to_int_def first_char_def
      address_def return0_def emit_def)

text \<open>A value whose first character is below \<open>0\<close> passes the test
  \<^verbatim>\<open>argv[a + 1][0] - 48 <= 1\<close>, since the difference is negative: \<open>-n /\<close> is taken
  for radio number 0.\<close>

lemma value_below_zero_accepted:
  "take 9 (main_ack (sample_env True [''q'']) [''ack'', ''-n'', ''/''])
     = [Radio Begin, Cout ''ack'', Endl,
        Radio EnableDynamicPayloads, Radio EnableAckPayload, Radio (SetPALevel RF24_PA_LOW),
        Radio (OpenWritingPipe ''1Node''), Radio (OpenReadingPipe 1 ''2Node''),
        Sigaction_SIGINT]"
  by (simp add: sample_env_def Let_def run_ack_def char_to_int_def first_char_def address_def)

subsection \<open>Exit codes\<close>

lemma enter_role_no_exit: "\<forall>ev\<in>set (fst (enter_role f lines w)). \<not> is_exit ev"
proof (cases "foundArgRole f")
  case False
  then show ?thesis
    using setRole_no_exit [of master_ack slave_ack lines w, OF master_ack_events slave_ack_events]
    by (simp add: enter_role_def)
next
  case True
  then show ?thesis
    using master_ack_events [of w] slave_ack_events [of w]
    by (auto simp: enter_role_def dest: role_event_not_exit)
qed

lemma run_ack_shape:
  "run_ack e progName f
     = ([Cout progName, Endl]
        @ (if \<not> foundArgNode f
           then [Cout ''Which radio is this? Enter '0' or '1'. Defaults to '0' '', Getline]
           else [])
        @ [Radio EnableDynamicPayloads,
           Radio EnableAckPayload,
           Radio (SetPALevel RF24_PA_LOW),
           Radio (OpenWritingPipe (address
             (if \<not> foundArgNode f then ask_radioNumber (fst (getline (stdin e)))
              else radioNumber f))),
           Radio (OpenReadingPipe 1 (address (\<not>
             (if \<not> foundArgNode f then ask_radioNumber (fst (getline (stdin e)))
              else radioNumber f))))])
       @ Sigaction_SIGINT
       # return0 (enter_role f (if \<not> foundArgNode f then snd (getline (stdin e)) else stdin e)
                   (initial_world payload0 e))"
  by (cases "getline (stdin e)") (simp add: run_ack_def enter_role_def Let_def)

lemma run_ack_exit:
  assumes "Exit c \<in> set (run_ack e progName f)"
  shows "c = 0"
proof -
  from assms have
    "Exit c \<in> set (return0 (enter_role f
        (if \<not> foundArgNode f then snd (getline (stdin e)) else stdin e)
        (initial_world payload0 e)))"
    unfolding run_ack_shape by (simp split: if_splits)
  with return0_exit [OF enter_role_no_exit] show ?thesis .
qed

lemma printHelp_exit: "Exit c \<notin> set (printHelp progName)"
  by (simp add: printHelp_def)

lemma main_ack_exit:
  assumes "Exit c \<in> set (main_ack e (progName # args))"
  shows "c = 0"
proof (cases "begin_ok e")
  case False
  with assms show ?thesis by (simp add: Let_def)
next
  case True
  show ?thesis
  proof (cases "rejected_cli (char_signed e) args")
    case r: True
    from assms show ?thesis
      unfolding main_ack_rejected [OF True r] by (simp add: printHelp_exit)
  next
    case r: False
    from main_ack_accepted [OF True r] obtain f where
      "main_ack e (progName # args) = Radio Begin # run_ack e progName f" by blast
    with assms have "Exit c \<in> set (run_ack e progName f)" by simp
    then show ?thesis by (rule run_ack_exit)
  qed
qed

lemma main_gs_exit:
  assumes "Exit c \<in> set (main_gs add p0 g argv)"
  shows "c = 0"
proof (cases "begin_ok g")
  case False
  with assms show ?thesis by (simp add: main_gs_def)
next
  case True
  with assms have
    "Exit c \<in> set (return0 (setRole (master_gs add) slave_gs (stdin g) (initial_world p0 g)))"
    by (simp add: main_gs_def)
  with return0_exit [OF setRole_no_exit [of "master_gs add" slave_gs, OF master_gs_events slave_gs_events]]
  show ?thesis .
qed

text \<open>
  Claim C5.  Whatever ends the process in a Linux example ends it with exit code
  0: \<^verbatim>\<open>main\<close> of the ACK-payloads example (after the hardware check failed, after
  the usage text, or after the role returned), \<^verbatim>\<open>main\<close> of GettingStarted, and the
  handler of SIGINT.
\<close>

theorem exit_code_is_zero:
  "(Exit c \<in> set (main_ack e (progName # args)) \<longrightarrow> c = 0)
   \<and> (Exit c \<in> set (main_gs add p0 g argv) \<longrightarrow> c = 0)
   \<and> (Exit c \<in> set (programInterruptHandler s :: PayloadStruct event list) \<longrightarrow> c = 0)"
  using main_ack_exit [of c e progName args] main_gs_exit [of c add p0 g argv]
  by (auto simp: programInterruptHandler_def)

theorem exit_code_is_zero_witness:
  "Exit 0 \<in> set (main_ack (sample_env True [''1'', ''q'']) [''ack''])
   \<and> Exit 1 \<notin> set (main_ack (sample_env True [''1'', ''q'']) [''ack''])
   \<and> Exit 0 \<in> set (main_ack (sample_env True []) [''ack'', ''-h''])
   \<and> Exit 0 \<in> set (main_ack (sample_env False []) [''ack''])
   \<and> Exit 0 \<in> set (main_gs ((+) 1) (0::int) (sample_env True [''q'']) [''gs''])
   \<and> Exit 0 \<in> set (programInterruptHandler 2 :: PayloadStruct event list)"
proof -
  note z = exit_code_is_zero [of 1 "sample_env True [''1'', ''q'']" "''ack''" "[]"
      "(+) 1" "0::int" "sample_env True [''q'']" "[''gs'']" 2]
  have "Exit 1 \<notin> set (main_ack (sample_env True [''1'', ''q'']) [''ack''])"
  proof
    assume "Exit 1 \<in> set (main_ack (sample_env True [''1'', ''q'']) [''ack''])"
    with z have "(1::int) = 0" by blast
    then show False by simp
  qed
  moreover have "Exit 0 \<in> set (main_ack (sample_env True [''1'', ''q'']) [''ack''])"
    by (simp add: sample_env_def Let_def run_ack_shape enter_role_def return0_def emit_def
        getline_def)
  moreover have "Exit 0 \<in> set (main_ack (sample_env True []) [''ack'', ''-h''])"
    by (simp add: sample_env_def Let_def)
  moreover have "Exit 0 \<in> set (main_ack (sample_env False []) [''ack''])"
    by (simp add: sample_env_def Let_def)
  moreover have
    "Exit 0 \<in> set (main_gs ((+) 1) (0::int) (sample_env True [''q'']) [''gs''])"
    by (simp add: sample_env_def main_gs_def return0_def emit_def)
  moreover have "Exit 0 \<in> set (programInterruptHandler 2 :: PayloadStruct event list)"
    by (simp add: programInterruptHandler_def)
  ultimately show ?thesis by blast
qed

subsection \<open>Prompts\<close>

lemma ask_radioNumber_simps:
  "ask_radioNumber [] = False" "ask_radioNumber (c # cs) = (c = CHR ''1'')"
  by (simp_all add: ask_radioNumber_def one_code)

text \<open>
  Claim C10.  The radio number asked for on standard input is 1 exactly when the
  line entered is not empty and starts with the character \<open>1\<close>; every other line,
  the empty one included, gives radio number 0.  Run without arguments, the
  ACK-payloads example prompts, reads one line, and opens the writing pipe on
  \<open>2Node\<close> and the reading pipe on \<open>1Node\<close> for radio number 1, the other way
  round for radio number 0.
\<close>

theorem radio_number_prompt:
  "ask_radioNumber [] = False
   \<and> ask_radioNumber (c # cs) = (c = CHR ''1'')
   \<and> (begin_ok e \<longrightarrow>
        take 11 (main_ack e [progName])
          = [Radio Begin, Cout progName, Endl,
             Cout ''Which radio is this? Enter '0' or '1'. Defaults to '0' '', Getline,
             Radio EnableDynamicPayloads, Radio EnableAckPayload, Radio (SetPALevel RF24_PA_LOW),
             Radio (OpenWritingPipe
               (if \<exists>cs. fst (getline (stdin e)) = CHR ''1'' # cs then ''2Node'' else ''1Node'')),
             Radio (OpenReadingPipe 1
               (if \<exists>cs. fst (getline (stdin e)) = CHR ''1'' # cs then ''1Node'' else ''2Node'')),
             Sigaction_SIGINT])"
proof (intro conjI impI)
  assume b: "begin_ok e"
  have a: "ask_radioNumber l = (\<exists>cs. l = CHR ''1'' # cs)" for l
    by (cases l) (auto simp: ask_radioNumber_simps)
  from b have m: "main_ack e [progName]
      = Radio Begin # run_ack e progName
          \<lparr>radioNumber = True, foundArgNode = False, foundArgRole = False, role = False\<rparr>"
    by (simp add: Let_def)
  show "take 11 (main_ack e [progName])
          = [Radio Begin, Cout progName, Endl,
             Cout ''Which radio is this? Enter '0' or '1'. Defaults to '0' '', Getline,
             Radio EnableDynamicPayloads, Radio EnableAckPayload, Radio (SetPALevel RF24_PA_LOW),
             Radio (OpenWritingPipe
               (if \<exists>cs. fst (getline (stdin e)) = CHR ''1'' # cs then ''2Node'' else ''1Node'')),
             Radio (OpenReadingPipe 1
               (if \<exists>cs. fst (getline (stdin e)) = CHR ''1'' # cs then ''1Node'' else ''2Node'')),
             Sigaction_SIGINT]"
    unfolding m run_ack_shape by (simp add: address_def a)
qed (simp_all add: ask_radioNumber_simps)

theorem radio_number_prompt_witness:
  "begin_ok (sample_env True [''1'', ''q''] :: (PayloadStruct, ack_tx_step) env)
   \<and> Radio (OpenWritingPipe ''2Node'')
       \<in> set (take 11 (main_ack (sample_env True [''1'', ''q'']) [''ack'']))
   \<and> Radio (OpenWritingPipe ''1Node'')
       \<in> set (take 11 (main_ack (sample_env True [''01'', ''q'']) [''ack'']))
   \<and> Radio (OpenWritingPipe ''1Node'')
       \<in> set (take 11 (main_ack (sample_env True []) [''ack'']))"
proof -
  have g: "fst (getline (stdin (sample_env True [''1'', ''q''] :: (PayloadStruct, ack_tx_step) env))) = ''1''"
    "fst (getline (stdin (sample_env True [''01'', ''q''] :: (PayloadStruct, ack_tx_step) env))) = ''01''"
    "fst (getline (stdin (sample_env True [] :: (PayloadStruct, ack_tx_step) env))) = []"
    and b: "begin_ok (sample_env True ls :: (PayloadStruct, ack_tx_step) env)" for ls
    by (simp_all add: sample_env_def getline_def)
  show ?thesis
    using radio_number_prompt [of "CHR ''1''" "[]" "sample_env True [''1'', ''q'']" "''ack''"]
      radio_number_prompt [of "CHR ''1''" "[]" "sample_env True [''01'', ''q'']" "''ack''"]
      radio_number_prompt [of "CHR ''1''" "[]" "sample_env True []" "''ack''"]
    by (simp only: g b) simp
qed

lemma after_sigaction_append:
  "Sigaction_SIGINT \<notin> set xs \<Longrightarrow> after_sigaction (xs @ Sigaction_SIGINT # rest) = rest"
proof -
  assume "Sigaction_SIGINT \<notin> set xs"
  then have "dropWhile (\<lambda>ev. ev \<noteq> Sigaction_SIGINT) (xs @ Sigaction_SIGINT # rest)
      = dropWhile (\<lambda>ev. ev \<noteq> Sigaction_SIGINT) (Sigaction_SIGINT # rest)"
    by (intro dropWhile_append2) auto
  then show ?thesis by (simp add: after_sigaction_def)
qed

lemma after_sigaction_main_ack:
  assumes "main_ack e (progName # args) = Radio Begin # run_ack e progName f"
  shows "after_sigaction (main_ack e (progName # args))
           = return0 (enter_role f (if \<not> foundArgNode f then snd (getline (stdin e)) else stdin e)
                        (initial_world payload0 e))"
proof -
  have "Radio Begin # (xs @ Sigaction_SIGINT # rest) = (Radio Begin # xs) @ Sigaction_SIGINT # rest"
    for xs rest :: "PayloadStruct event list" by simp
  then show ?thesis
    unfolding assms run_ack_shape
    by (simp only:) (rule after_sigaction_append, simp)
qed

lemma role_given_no_prompt:
  assumes "foundArgRole f"
  shows "Getline \<notin> set (return0 (enter_role f lines w))"
proof -
  have "\<forall>ev\<in>set (fst (enter_role f lines w)). role_event ev"
    using assms master_ack_events [of w] slave_ack_events [of w]
    by (simp add: enter_role_def)
  then have "Getline \<notin> set (fst (enter_role f lines w))"
    by (auto dest: role_event_not_getline)
  then show ?thesis
    by (simp add: return0_def split: option.splits)
qed

text \<open>
  Claim C4, as amended.  The ACK-payloads example takes the node index from
  \<open>-n\<close>/\<open>--node\<close> and the role from \<open>-r\<close>/\<open>--role\<close>.  When \<^verbatim>\<open>radio.begin()\<close> has
  succeeded and the command line is not rejected: without a node option it asks
  for the radio number on standard input right after printing its name, with
  one it does not ask and opens the pipes for the number the last node option
  selects; without a role option it runs the \<^verbatim>\<open>setRole()\<close> menu on standard input
  once the handler is installed, with one it runs \<^verbatim>\<open>master()\<close> or \<^verbatim>\<open>slave()\<close> as the
  last role option selects and reads no line after that.  GettingStarted reads no command line: its run is the same for every
  \<open>argv\<close>, and after a successful hardware check it always runs the \<^verbatim>\<open>setRole()\<close>
  menu.
\<close>

theorem flags_or_prompts:
  "(begin_ok e \<and> \<not> rejected_cli (char_signed e) args \<longrightarrow>
      (\<not> node_given args \<longrightarrow>
         take 5 (main_ack e (progName # args))
           = [Radio Begin, Cout progName, Endl,
              Cout ''Which radio is this? Enter '0' or '1'. Defaults to '0' '', Getline])
      \<and> (node_given args \<longrightarrow>
         take 9 (main_ack e (progName # args))
           = [Radio Begin, Cout progName, Endl,
              Radio EnableDynamicPayloads, Radio EnableAckPayload, Radio (SetPALevel RF24_PA_LOW),
              Radio (OpenWritingPipe (address
                (selects_one (char_signed e) (last (option_values node_option args))))),
              Radio (OpenReadingPipe 1 (address
                (\<not> selects_one (char_signed e) (last (option_values node_option args))))),
              Sigaction_SIGINT])
      \<and> (\<not> role_given args \<longrightarrow>
         after_sigaction (main_ack e (progName # args))
           = return0 (setRole master_ack slave_ack
                        (if node_given args then stdin e else snd (getline (stdin e)))
                        (initial_world payload0 e)))
      \<and> (role_given args \<longrightarrow>
         after_sigaction (main_ack e (progName # args))
           = return0 (if selects_one (char_signed e) (last (option_values role_option args))
                      then master_ack (initial_world payload0 e)
                      else slave_ack (initial_world payload0 e))
         \<and> Getline \<notin> set (after_sigaction (main_ack e (progName # args)))))
   \<and> main_gs add p0 g argv = main_gs add p0 g argv'
   \<and> (begin_ok g \<longrightarrow>
        main_gs add p0 g argv
          = [Radio Begin,
             Cout (''RF24/examples_linux/GettingStarted'' @ [NL]),
             Radio (SetPALevel RF24_PA_LOW),
             Radio (OpenWritingPipe ''1Node''),
             Radio (OpenReadingPipe 0 ''1Node'')]
            @ return0 (setRole (master_gs add) slave_gs (stdin g) (initial_world p0 g)))"
proof (intro conjI impI)
  assume a: "begin_ok e \<and> \<not> rejected_cli (char_signed e) args"
  from main_ack_accepted [of e args progName] a obtain f where
    m: "main_ack e (progName # args) = Radio Begin # run_ack e progName f"
    and fn: "foundArgNode f = node_given args" and fr: "foundArgRole f = role_given args"
    and rn: "radioNumber f
               = (if node_given args
                  then selects_one (char_signed e) (last (option_values node_option args))
                  else True)"
    and rr: "role f
               = (if role_given args
                  then selects_one (char_signed e) (last (option_values role_option args))
                  else False)"
    by blast
  note s = after_sigaction_main_ack [OF m]
  {
    assume "\<not> node_given args"
    then show "take 5 (main_ack e (progName # args))
           = [Radio Begin, Cout progName, Endl,
              Cout ''Which radio is this? Enter '0' or '1'. Defaults to '0' '', Getline]"
      unfolding m run_ack_shape using fn by simp
  }
  {
    assume "node_given args"
    then show "take 9 (main_ack e (progName # args))
           = [Radio Begin, Cout progName, Endl,
              Radio EnableDynamicPayloads, Radio EnableAckPayload, Radio (SetPALevel RF24_PA_LOW),
              Radio (OpenWritingPipe (address
                (selects_one (char_signed e) (last (option_values node_option args))))),
              Radio (OpenReadingPipe 1 (address
                (\<not> selects_one (char_signed e) (last (option_values node_option args))))),
              Sigaction_SIGINT]"
      unfolding m run_ack_shape using fn rn by simp
  }
  {
    assume "\<not> role_given args"
    then show "after_sigaction (main_ack e (progName # args))
           = return0 (setRole master_ack slave_ack
                        (if node_given args then stdin e else snd (getline (stdin e)))
                        (initial_world payload0 e))"
      unfolding s using fn fr by (simp add: enter_role_def)
  }
  {
    assume g: "role_given args"
    then show "after_sigaction (main_ack e (progName # args))
           = return0 (if selects_one (char_signed e) (last (option_values role_option args))
                      then master_ack (initial_world payload0 e)
                      else slave_ack (initial_world payload0 e))"
      unfolding s using fr rr by (simp add: enter_role_def)
    from g show "Getline \<notin> set (after_sigaction (main_ack e (progName # args)))"
      unfolding s using fr role_given_no_prompt [of f] by simp
  }
qed (simp_all add: main_gs_def)

theorem flags_or_prompts_witness:
  "begin_ok (sample_env True [''1'', ''q''] :: (PayloadStruct, ack_tx_step) env)
   \<and> \<not> rejected_cli True [''-r'', ''1'']
   \<and> \<not> rejected_cli True [''-n'', ''1'']
   \<and> take 5 (main_ack (sample_env True [''1'', ''q'']) [''ack'', ''-r'', ''1''])
       = [Radio Begin, Cout ''ack'', Endl,
          Cout ''Which radio is this? Enter '0' or '1'. Defaults to '0' '', Getline]
   \<and> after_sigaction (main_ack (sample_env True [''1'', ''q'']) [''ack'', ''-r'', ''1''])
       = return0 (master_ack (initial_world payload0 (sample_env True [''1'', ''q''])))
   \<and> Getline \<notin> set (after_sigaction (main_ack (sample_env True [''1'', ''q'']) [''ack'', ''-r'', ''1'']))
   \<and> take 9 (main_ack (sample_env True [''1'', ''q'']) [''ack'', ''-n'', ''1''])
       = [Radio Begin, Cout ''ack'', Endl,
          Radio EnableDynamicPayloads, Radio EnableAckPayload, Radio (SetPALevel RF24_PA_LOW),
          Radio (OpenWritingPipe ''2Node''), Radio (OpenReadingPipe 1 ''1Node''),
          Sigaction_SIGINT]
   \<and> after_sigaction (main_ack (sample_env True [''1'', ''q'']) [''ack'', ''-n'', ''1''])
       = return0 (setRole master_ack slave_ack [''1'', ''q'']
                    (initial_world payload0 (sample_env True [''1'', ''q''])))"
proof -
  let ?e = "sample_env True [''1'', ''q''] :: (PayloadStruct, ack_tx_step) env"
  note t1 = flags_or_prompts [of ?e "[''-r'', ''1'']" "''ack''" "(+) 1" "0::int"
      "sample_env True [''q'']" "[''gs'']" "[]"]
  note t2 = flags_or_prompts [of ?e "[''-n'', ''1'']" "''ack''" "(+) 1" "0::int"
      "sample_env True [''q'']" "[''gs'']" "[]"]
  have e: "begin_ok ?e" and cs: "char_signed ?e = True" and sd: "stdin ?e = [''1'', ''q'']"
    by (simp_all add: sample_env_def)
  have r: "\<not> rejected_cli True [''-r'', ''1'']" "\<not> rejected_cli True [''-n'', ''1'']"
    by (simp_all add: rejected_cli_def rejected_value_def char_to_int_def first_char_def
        node_option_def role_option_def)
  have g: "\<not> node_given [''-r'', ''1'']" "role_given [''-r'', ''1'']"
    "node_given [''-n'', ''1'']" "\<not> role_given [''-n'', ''1'']"
    by (simp_all add: node_option_def role_option_def)
  have v: "selects_one True (last (option_values role_option [''-r'', ''1'']))"
    "selects_one True (last (option_values node_option [''-n'', ''1'']))"
    by (simp_all add: selects_one_def char_to_int_def first_char_def node_option_def
        role_option_def)
  have a: "address True = ''2Node''" "address (\<not> True) = ''1Node''"
    by (simp_all add: address_def)
  from t1 e r g have c1:
    "take 5 (main_ack ?e [''ack'', ''-r'', ''1''])
       = [Radio Begin, Cout ''ack'', Endl,
          Cout ''Which radio is this? Enter '0' or '1'. Defaults to '0' '', Getline]"
    unfolding cs by blast
  from t1 e r g have
    "after_sigaction (main_ack ?e [''ack'', ''-r'', ''1''])
       = return0 (if selects_one True (last (option_values role_option [''-r'', ''1'']))
                  then master_ack (initial_world payload0 ?e)
                  else slave_ack (initial_world payload0 ?e))"
    unfolding cs by blast
  then have c2:
    "after_sigaction (main_ack ?e [''ack'', ''-r'', ''1''])
       = return0 (master_ack (initial_world payload0 ?e))"
    by (simp only: v if_True)
  from t1 e r g have c3:
    "Getline \<notin> set (after_sigaction (main_ack ?e [''ack'', ''-r'', ''1'']))"
    unfolding cs by blast
  from t2 e r g have
    "take 9 (main_ack ?e [''ack'', ''-n'', ''1''])
       = [Radio Begin, Cout ''ack'', Endl,
          Radio EnableDynamicPayloads, Radio EnableAckPayload, Radio (SetPALevel RF24_PA_LOW),
          Radio (OpenWritingPipe (address
            (selects_one True (last (option_values node_option [''-n'', ''1'']))))),
          Radio (OpenReadingPipe 1 (address
            (\<not> selects_one True (last (option_values node_option [''-n'', ''1'']))))),
          Sigaction_SIGINT]"
    unfolding cs by blast
  then have c4:
    "take 9 (main_ack ?e [''ack'', ''-n'', ''1''])
       = [Radio Begin, Cout ''ack'', Endl,
          Radio EnableDynamicPayloads, Radio EnableAckPayload, Radio (SetPALevel RF24_PA_LOW),
          Radio (OpenWritingPipe ''2Node''), Radio (OpenReadingPipe 1 ''1Node''),
          Sigaction_SIGINT]"
    by (simp only: v a)
  from t2 e r g have
    "after_sigaction (main_ack ?e [''ack'', ''-n'', ''1''])
       = return0 (setRole master_ack slave_ack
                    (if node_given [''-n'', ''1''] then stdin ?e else snd (getline (stdin ?e)))
                    (initial_world payload0 ?e))"
    unfolding cs by blast
  then have c5:
    "after_sigaction (main_ack ?e [''ack'', ''-n'', ''1''])
       = return0 (setRole master_ack slave_ack [''1'', ''q''] (initial_world payload0 ?e))"
    by (simp only: g sd if_True)
  from e r c1 c2 c3 c4 c5 show ?thesis by blast
qed

text \<open>
  Claim C4 as stated fails twice.  The ACK-payloads example run with the
  arguments \<open>x y\<close> has neither flag and prompts for nothing: it prints the usage
  text and ends.  GettingStarted run with \<open>-r 1\<close> still shows the menu and reads
  the role from standard input.
\<close>

theorem absent_flags_counterexample:
  "\<not> node_given [''x'', ''y''] \<and> \<not> role_given [''x'', ''y'']
   \<and> main_ack (sample_env True [''1'', ''t'']) [''ack'', ''x'', ''y'']
       = Radio Begin # printHelp ''ack'' @ [Exit 0]
   \<and> Getline \<notin> set (main_ack (sample_env True [''1'', ''t'']) [''ack'', ''x'', ''y''])
   \<and> role_given [''-r'', ''1'']
   \<and> main_gs ((+) 1) (0::int) (sample_env True [''q'']) [''gs'', ''-r'', ''1'']
       = [Radio Begin,
          Cout (''RF24/examples_linux/GettingStarted'' @ [NL]),
          Radio (SetPALevel RF24_PA_LOW),
          Radio (OpenWritingPipe ''1Node''),
          Radio (OpenReadingPipe 0 ''1Node'')] @ menu @ [Exit 0]
   \<and> Getline \<in> set (main_gs ((+) 1) (0::int) (sample_env True [''q'']) [''gs'', ''-r'', ''1''])"
proof -
  have m: "main_ack (sample_env True [''1'', ''t'']) [''ack'', ''x'', ''y'']
       = Radio Begin # printHelp ''ack'' @ [Exit 0]"
    by (simp add: sample_env_def Let_def)
  have g: "main_gs ((+) 1) (0::int) (sample_env True [''q'']) [''gs'', ''-r'', ''1'']
       = [Radio Begin,
          Cout (''RF24/examples_linux/GettingStarted'' @ [NL]),
          Radio (SetPALevel RF24_PA_LOW),
          Radio (OpenWritingPipe ''1Node''),
          Radio (OpenReadingPipe 0 ''1Node'')] @ menu @ [Exit 0]"
    by (simp add: sample_env_def main_gs_def return0_def emit_def)
  show ?thesis
    unfolding m g
    by (simp add: node_option_def role_option_def printHelp_def menu_def)
qed

end
